theory Spec2Isabelle
  imports Complex_Main "HOL-Library.Countable"
begin

section \<open>JavaScript values\<close>

text \<open>
  The values the entity model handles. \<open>JObj\<close> is a plain object: its own enumerable
  properties in insertion order (the order of \<open>Object.entries\<close> and \<open>Object.keys\<close>).
  \<open>JEnt i ps\<close> is an instance of a subclass of \<open>Entity\<close> other than \<open>EPCISDocument\<close>
  (an event, a header, a value object): \<open>i\<close> is its object identity, which is what
  \<open>===\<close> and \<open>!==\<close> compare, and \<open>ps\<close> are its own properties. Numbers are rationals;
  \<open>NaN\<close> and the infinities, which JSON cannot carry, are left out.
\<close>

datatype jsval =
    JUndefined
  | JNull
  | JBool bool
  | JNum rat
  | JStr string
  | JArr "jsval list"
  | JObj "(string \<times> jsval) list"
  | JEnt nat "(string \<times> jsval) list"

type_synonym props = "(string \<times> jsval) list"

text \<open>
  A violation found by validation, with the path of the value it is about: the keys and
  array indices from the root of the document.
\<close>

datatype seg = Key string | Index nat

type_synonym path = "seg list"

datatype violation =
    StructuralViolation path string
  | ExtensionViolation path string

text \<open>
  What the code throws. \<open>ValidationError\<close> is the aggregate that the assert mode of
  validation throws, carrying the violations.
\<close>

datatype error =
    TypeError
  | UnknownEventType
  | UnknownSchemaError
  | UnknownFieldSetError
  | UnknownDocumentType
  | ValidationError "violation list"

text \<open>\<open>ToBoolean\<close>: what \<open>if (x)\<close>, \<open>!x\<close> and \<open>x || y\<close> test.\<close>

fun truthy :: "jsval \<Rightarrow> bool" where
  "truthy JUndefined = False"
| "truthy JNull = False"
| "truthy (JBool b) = b"
| "truthy (JNum n) = (n \<noteq> 0)"
| "truthy (JStr s) = (s \<noteq> [])"
| "truthy (JArr xs) = True"
| "truthy (JObj ps) = True"
| "truthy (JEnt i ps) = True"

text \<open>\<open>o[k]\<close> on the own properties of an object: \<open>undefined\<close> when there is none.\<close>

definition get_prop :: "props \<Rightarrow> string \<Rightarrow> jsval" where
  "get_prop ps k = (case map_of ps k of None \<Rightarrow> JUndefined | Some v \<Rightarrow> v)"

text \<open>\<open>o[k] = v\<close>: an existing property keeps its place, a new one goes last.\<close>

fun set_prop :: "string \<Rightarrow> jsval \<Rightarrow> props \<Rightarrow> props" where
  "set_prop k v [] = [(k, v)]"
| "set_prop k v ((k', v') # ps) =
     (if k' = k then (k, v) # ps else (k', v') # set_prop k v ps)"

text \<open>\<open>delete o[k]\<close>.\<close>

definition delete_prop :: "string \<Rightarrow> props \<Rightarrow> props" where
  "delete_prop k ps = filter (\<lambda>p. fst p \<noteq> k) ps"

text \<open>
  \<open>v.k\<close> for a key \<open>k\<close> that is neither \<open>length\<close> nor an index: a \<open>TypeError\<close> on
  \<open>undefined\<close> and \<open>null\<close>, the own property of an object, \<open>undefined\<close> on every other
  value.
\<close>

fun member :: "jsval \<Rightarrow> string \<Rightarrow> error + jsval" where
  "member JUndefined k = Inl TypeError"
| "member JNull k = Inl TypeError"
| "member (JObj ps) k = Inr (get_prop ps k)"
| "member (JEnt i ps) k = Inr (get_prop ps k)"
| "member v k = Inr JUndefined"

section \<open>Entity\<close>

text \<open>
  Modelled from the spec: \<open>src/entity/Entity.js\<close>, the base class of every entity, is not
  among the sources. Its constructor is what \<open>super(epcisDocument)\<close> runs (spec 3,
  Lifecycle, and 4.1 \<open>construct\<close>: with no raw value the entity is empty; otherwise every
  key of the raw value is copied as it is, the subclass constructor then replaces the
  structurally known ones). \<open>TransactionEvent\<close> clears its list fields after \<open>super\<close>
  and \<open>EPCISDocument\<close> reads \<open>@context\<close> after it, so the copy covers every key.
\<close>

definition Entity_new :: "props option \<Rightarrow> props" where
  "Entity_new raw =
     (case raw of
        None \<Rightarrow> []
      | Some entries \<Rightarrow> fold (\<lambda>(key, v) this. set_prop key v this) entries [])"

text \<open>
  Modelled from the spec: \<open>Entity.toObject\<close>, which \<open>super.toObject()\<close> and the
  \<open>toObject\<close> of an event run (spec 4.1 \<open>serialize\<close>: a plain value from the current
  state, every field passed through unchanged; spec 2: typed objects serialize back
  losslessly). A property holding an entity is emitted as that entity's own
  serialization, an array element by element (an entity element serialized, any other
  element as it is), every other value as it is.
\<close>

fun field_out :: "jsval \<Rightarrow> jsval"
  and Entity_toObject :: "props \<Rightarrow> props"
  and elems_out :: "jsval list \<Rightarrow> jsval list" where
  "field_out (JEnt i ps) = JObj (Entity_toObject ps)"
| "field_out (JArr xs) = JArr (elems_out xs)"
| "field_out JUndefined = JUndefined"
| "field_out JNull = JNull"
| "field_out (JBool b) = JBool b"
| "field_out (JNum n) = JNum n"
| "field_out (JStr s) = JStr s"
| "field_out (JObj ps) = JObj ps"
| "Entity_toObject [] = []"
| "Entity_toObject ((k, v) # ps) = (k, field_out v) # Entity_toObject ps"
| "elems_out [] = []"
| "elems_out (JEnt i ps # xs) = JObj (Entity_toObject ps) # elems_out xs"
| "elems_out (JUndefined # xs) = JUndefined # elems_out xs"
| "elems_out (JNull # xs) = JNull # elems_out xs"
| "elems_out (JBool b # xs) = JBool b # elems_out xs"
| "elems_out (JNum n # xs) = JNum n # elems_out xs"
| "elems_out (JStr s # xs) = JStr s # elems_out xs"
| "elems_out (JArr ys # xs) = JArr ys # elems_out xs"
| "elems_out (JObj ps # xs) = JObj ps # elems_out xs"

text \<open>
  \<open>e.toObject()\<close> on an arbitrary value: only an entity has the method; on \<open>undefined\<close>
  and \<open>null\<close> the property read fails, on any other value the call of a non-function
  fails, each with a \<open>TypeError\<close>.
\<close>

fun call_toObject :: "jsval \<Rightarrow> error + jsval" where
  "call_toObject (JEnt i ps) = Inr (JObj (Entity_toObject ps))"
| "call_toObject v = Inl TypeError"

section \<open>Settings\<close>

text \<open>
  The process-wide settings (\<open>src/settings\<close>, not among the sources) are plain values
  read by the constructor; \<open>setup\<close> may put any value there, \<open>undefined\<close> included.
\<close>

record settings =
  useEventListByDefault :: jsval
  EPCISDocumentContext :: jsval
  EPCISDocumentSchemaVersion :: jsval

section \<open>EPCISDocument\<close>

text \<open>
  An \<open>EPCISDocument\<close> instance. Its \<open>eventList\<close> property is kept apart from its other
  own properties and typed as the class documents it (\<open>Array<Event>\<close>): \<open>None\<close> is the
  property that does not exist, \<open>Some []\<close> the one that exists and is empty. Every
  other own property, \<open>isA\<close>, \<open>@context\<close>, \<open>useEventListByDefault\<close> and the extension
  fields among them, is in \<open>own\<close>, in insertion order.
\<close>

record epcis_document =
  own :: props
  eventList :: "jsval list option"

text \<open>
  The entity that \<open>super(epcisDocument)\<close> leaves in \<open>this\<close>, read into the typed state.
  A raw document has its events under \<open>epcisBody\<close>; a raw top-level \<open>eventList\<close> key
  is outside the document shape. When it holds an array, that array is the list the
  constructor starts from, as in the code. When it holds any other value the code keeps
  that value in \<open>this.eventList\<close>, for which the typed state has no place: the model
  then starts with no list, and agrees with the code on the other properties only. The
  theorems that read the event list of a constructed document assume that the raw
  document has no such key.
\<close>

definition as_document :: "props \<Rightarrow> epcis_document" where
  "as_document ps =
     \<lparr> own = delete_prop ''eventList'' ps,
       eventList = (case get_prop ps ''eventList'' of JArr xs \<Rightarrow> Some xs | _ \<Rightarrow> None) \<rparr>"

definition setIsA :: "jsval \<Rightarrow> epcis_document \<Rightarrow> epcis_document" where
  "setIsA isA this = this\<lparr>own := set_prop ''isA'' isA (own this)\<rparr>"

definition getIsA :: "epcis_document \<Rightarrow> jsval" where
  "getIsA this = get_prop (own this) ''isA''"

definition setContext :: "jsval \<Rightarrow> epcis_document \<Rightarrow> epcis_document" where
  "setContext context this = this\<lparr>own := set_prop ''@context'' context (own this)\<rparr>"

definition getContext :: "epcis_document \<Rightarrow> jsval" where
  "getContext this = get_prop (own this) ''@context''"

definition setSchemaVersion :: "jsval \<Rightarrow> epcis_document \<Rightarrow> epcis_document" where
  "setSchemaVersion schemaVersion this =
     this\<lparr>own := set_prop ''schemaVersion'' schemaVersion (own this)\<rparr>"

definition getSchemaVersion :: "epcis_document \<Rightarrow> jsval" where
  "getSchemaVersion this = get_prop (own this) ''schemaVersion''"

definition setCreationDate :: "jsval \<Rightarrow> epcis_document \<Rightarrow> epcis_document" where
  "setCreationDate creationDate this =
     this\<lparr>own := set_prop ''creationDate'' creationDate (own this)\<rparr>"

definition getCreationDate :: "epcis_document \<Rightarrow> jsval" where
  "getCreationDate this = get_prop (own this) ''creationDate''"

definition setFormat :: "jsval \<Rightarrow> epcis_document \<Rightarrow> epcis_document" where
  "setFormat format this = this\<lparr>own := set_prop ''format'' format (own this)\<rparr>"

definition getFormat :: "epcis_document \<Rightarrow> jsval" where
  "getFormat this = get_prop (own this) ''format''"

definition setUseEventListByDefault :: "jsval \<Rightarrow> epcis_document \<Rightarrow> epcis_document" where
  "setUseEventListByDefault b this =
     this\<lparr>own := set_prop ''useEventListByDefault'' b (own this)\<rparr>"

definition getUseEventListByDefault :: "epcis_document \<Rightarrow> jsval" where
  "getUseEventListByDefault this = get_prop (own this) ''useEventListByDefault''"

definition setEPCISHeader :: "jsval \<Rightarrow> epcis_document \<Rightarrow> epcis_document" where
  "setEPCISHeader epcisHeader this =
     this\<lparr>own := set_prop ''epcisHeader'' epcisHeader (own this)\<rparr>"

definition getEPCISHeader :: "epcis_document \<Rightarrow> jsval" where
  "getEPCISHeader this = get_prop (own this) ''epcisHeader''"

text \<open>\<open>addEvent\<close>: an array is always truthy, so only a missing list is created.\<close>

definition addEvent :: "jsval \<Rightarrow> epcis_document \<Rightarrow> epcis_document" where
  "addEvent event this =
     this\<lparr>eventList :=
       Some ((case eventList this of None \<Rightarrow> [] | Some evs \<Rightarrow> evs) @ [event])\<rparr>"

definition addEventList :: "jsval list \<Rightarrow> epcis_document \<Rightarrow> epcis_document" where
  "addEventList events this =
     this\<lparr>eventList :=
       Some ((case eventList this of None \<Rightarrow> [] | Some evs \<Rightarrow> evs) @ events)\<rparr>"

definition clearEventList :: "epcis_document \<Rightarrow> epcis_document" where
  "clearEventList this = this\<lparr>eventList := None\<rparr>"

text \<open>
  \<open>a === b\<close>. Primitives compare by value and entities by identity. A plain array or
  object of the model is a value with no sharing: each occurrence is an object of its
  own, identical to no other value.
\<close>

fun strict_equal :: "jsval \<Rightarrow> jsval \<Rightarrow> bool" where
  "strict_equal JUndefined JUndefined = True"
| "strict_equal JNull JNull = True"
| "strict_equal (JBool a) (JBool b) = (a = b)"
| "strict_equal (JNum a) (JNum b) = (a = b)"
| "strict_equal (JStr a) (JStr b) = (a = b)"
| "strict_equal (JEnt i ps) (JEnt j qs) = (i = j)"
| "strict_equal a b = False"

text \<open>\<open>removeEvent\<close>: \<open>this.eventList.filter\<close> on a list that does not exist throws.\<close>

definition removeEvent :: "jsval \<Rightarrow> epcis_document \<Rightarrow> error + epcis_document" where
  "removeEvent event this =
     (case eventList this of
        None \<Rightarrow> Inl TypeError
      | Some evs \<Rightarrow>
          Inr (this\<lparr>eventList := Some (filter (\<lambda>elem. \<not> strict_equal elem event) evs)\<rparr>))"

fun removeEventList :: "jsval list \<Rightarrow> epcis_document \<Rightarrow> error + epcis_document" where
  "removeEventList [] this = Inr this"
| "removeEventList (event # events) this =
     (case removeEvent event this of
        Inl err \<Rightarrow> Inl err
      | Inr this' \<Rightarrow> removeEventList events this')"

definition getEventList :: "epcis_document \<Rightarrow> jsval list option" where
  "getEventList this = eventList this"

text \<open>
  The second half of \<open>toObject\<close>: the event or the event list moves into \<open>epcisBody\<close>.
  \<open>output_eventList\<close> is \<open>output.eventList\<close>. When an own \<open>event\<close> property makes the first
  branch run while the list is still in the output, the list stays at the top level;
  the model emits it after the other keys.
\<close>

definition wrap_body :: "props \<Rightarrow> jsval list option \<Rightarrow> props" where
  "wrap_body output output_eventList =
     (if truthy (get_prop output ''event'') then
        set_prop ''epcisBody'' (JObj [(''event'', get_prop output ''event'')])
          (delete_prop ''event'' output @
             (case output_eventList of
                None \<Rightarrow> []
              | Some evs \<Rightarrow> [(''eventList'', JArr evs)]))
      else
        (case output_eventList of
           Some evs \<Rightarrow> set_prop ''epcisBody'' (JObj [(''eventList'', JArr evs)]) output
         | None \<Rightarrow> output))"

text \<open>
  \<open>toObject\<close>. \<open>this.eventList.length\<close> is read only when the toggle is falsy, and reading
  it on a list that does not exist is a \<open>TypeError\<close>.
\<close>

definition toObject :: "epcis_document \<Rightarrow> error + props" where
  "toObject this =
     (let output = delete_prop ''useEventListByDefault'' (Entity_toObject (own this));
          output_eventList = map_option elems_out (eventList this)
      in
        if \<not> truthy (get_prop (own this) ''useEventListByDefault'') then
          (case eventList this of
             None \<Rightarrow> Inl TypeError
           | Some evs \<Rightarrow>
               if length evs < 2 then
                 (case evs of
                    [] \<Rightarrow> Inr (wrap_body (set_prop ''event'' (JObj []) output) None)
                  | e # rest \<Rightarrow>
                      (case call_toObject e of
                         Inl err \<Rightarrow> Inl err
                       | Inr ev \<Rightarrow> Inr (wrap_body (set_prop ''event'' ev output) None)))
               else Inr (wrap_body output output_eventList))
        else Inr (wrap_body output output_eventList))"

text \<open>
  The constructor's \<open>switch\<close> on one entry of the raw document. \<open>objectToEvent\<close>
  (\<open>src/utils/entityUtils\<close>) and the constructor of \<open>EPCISHeader\<close> are not among the
  sources: the parameters \<open>event_of\<close> and \<open>header_of\<close> stand for them. Each takes the
  allocation slot of the instance it builds, from which the identity of that instance
  and of its sub-entities comes: of the unused slots \<open>oid\<close>, \<open>oid + 1\<close>, ... the header
  takes the first and the events the following ones, in the order they are added.
  \<open>value.eventList.forEach\<close> on a truthy value that is not an array throws.
\<close>

definition event_id :: "nat \<Rightarrow> epcis_document \<Rightarrow> nat" where
  "event_id oid this =
     oid + 1 + (case eventList this of None \<Rightarrow> 0 | Some evs \<Rightarrow> length evs)"

fun add_events ::
  "(nat \<Rightarrow> jsval \<Rightarrow> error + jsval) \<Rightarrow> nat \<Rightarrow> jsval list \<Rightarrow> epcis_document \<Rightarrow>
   error + epcis_document" where
  "add_events event_of oid [] this = Inr this"
| "add_events event_of oid (event # events) this =
     (case event_of (event_id oid this) event of
        Inl err \<Rightarrow> Inl err
      | Inr e \<Rightarrow> add_events event_of oid events (addEvent e this))"

definition rebuild_entry ::
  "(nat \<Rightarrow> jsval \<Rightarrow> error + jsval) \<Rightarrow> (nat \<Rightarrow> jsval \<Rightarrow> jsval) \<Rightarrow> nat \<Rightarrow>
   string \<Rightarrow> jsval \<Rightarrow> epcis_document \<Rightarrow> error + epcis_document" where
  "rebuild_entry event_of header_of oid key v this =
     (if key = ''isA'' then Inr (setIsA v this)
      else if key = ''epcisHeader'' then Inr (setEPCISHeader (header_of oid v) this)
      else if key = ''epcisBody'' then
        (case member v ''event'' of
           Inl err \<Rightarrow> Inl err
         | Inr ev \<Rightarrow>
             if truthy ev then
               (case event_of (event_id oid this) ev of
                  Inl err \<Rightarrow> Inl err
                | Inr e \<Rightarrow> Inr (addEvent e this))
             else
               (case member v ''eventList'' of
                  Inl err \<Rightarrow> Inl err
                | Inr evl \<Rightarrow>
                    if truthy evl then
                      (case evl of
                         JArr events \<Rightarrow> add_events event_of oid events this
                       | _ \<Rightarrow> Inl TypeError)
                    else Inr this))
      else Inr this)"

fun rebuild ::
  "(nat \<Rightarrow> jsval \<Rightarrow> error + jsval) \<Rightarrow> (nat \<Rightarrow> jsval \<Rightarrow> jsval) \<Rightarrow> nat \<Rightarrow>
   props \<Rightarrow> epcis_document \<Rightarrow> error + epcis_document" where
  "rebuild event_of header_of oid [] this = Inr this"
| "rebuild event_of header_of oid ((key, v) # entries) this =
     (case rebuild_entry event_of header_of oid key v this of
        Inl err \<Rightarrow> Inl err
      | Inr this' \<Rightarrow> rebuild event_of header_of oid entries this')"

text \<open>
  The first half of the constructor, up to \<open>if (!epcisDocument) return\<close>. \<open>now\<close> is the
  value of \<open>new Date().toISOString()\<close>.
\<close>

definition init_defaults :: "settings \<Rightarrow> string \<Rightarrow> props option \<Rightarrow> epcis_document" where
  "init_defaults st now epcisDocument =
     (let this = as_document (Entity_new epcisDocument);
          this = setIsA (JStr ''EPCISDocument'') this;
          this = setUseEventListByDefault (useEventListByDefault st) this;
          this = (if \<not> truthy (getContext this)
                  then setContext (EPCISDocumentContext st) this else this);
          this = (if \<not> truthy (getSchemaVersion this)
                  then setSchemaVersion (EPCISDocumentSchemaVersion st) this else this);
          this = (if \<not> truthy (getCreationDate this)
                  then setCreationDate (JStr now) this else this)
      in this)"

text \<open>\<open>new EPCISDocument(epcisDocument)\<close>; \<open>None\<close> is the call with no argument.\<close>

definition new_EPCISDocument ::
  "settings \<Rightarrow> string \<Rightarrow> (nat \<Rightarrow> jsval \<Rightarrow> error + jsval) \<Rightarrow> (nat \<Rightarrow> jsval \<Rightarrow> jsval) \<Rightarrow>
   nat \<Rightarrow> props option \<Rightarrow> error + epcis_document" where
  "new_EPCISDocument st now event_of header_of oid epcisDocument =
     (let this = init_defaults st now epcisDocument
      in case epcisDocument of
           None \<Rightarrow> Inr this
         | Some entries \<Rightarrow> rebuild event_of header_of oid entries this)"

section \<open>Object identities\<close>

text \<open>
  \<open>new\<close> allocates an object that is identical to no other. A constructor call is given
  an allocation slot \<open>n\<close> that no other call is given: the instance it builds takes the
  identity \<open>entity_id n 0\<close>, and the \<open>j\<close>-th object it allocates for that instance (a
  sub-entity) the identity \<open>entity_id n j\<close>. Distinct pairs give distinct identities.
\<close>

definition entity_id :: "nat \<Rightarrow> nat \<Rightarrow> nat" where
  "entity_id slot j = prod_encode (slot, j)"

text \<open>
  Modelled from the spec: the constructors of the value objects (\<open>BizTransactionElement\<close>,
  \<open>QuantityElement\<close>, \<open>PersistentDisposition\<close>, \<open>SourceElement\<close>, \<open>DestinationElement\<close>,
  \<open>SensorElement\<close>, \<open>ReadPoint\<close>, \<open>BizLocation\<close>; \<open>src/entity/model\<close> is not among the
  sources; spec 1 and 3: leaf value objects with no invariant beyond direct field
  assignment): the instance holds the raw object's keys as the \<open>Entity\<close> constructor
  copies them, and no key when the raw value is not an object.
\<close>

definition new_value_object :: "nat \<Rightarrow> jsval \<Rightarrow> jsval" where
  "new_value_object i raw =
     JEnt i (Entity_new (case raw of JObj entries \<Rightarrow> Some entries | _ \<Rightarrow> None))"

section \<open>TransactionEvent\<close>

text \<open>
  A \<open>TransactionEvent\<close> instance is its own properties. \<open>push\<close> and \<open>filter\<close> exist on
  arrays only: on any other value the call throws a \<open>TypeError\<close>.
\<close>

definition addEPC :: "jsval \<Rightarrow> props \<Rightarrow> error + props" where
  "addEPC epc this =
     (let this' = (if \<not> truthy (get_prop this ''epcList'')
                   then set_prop ''epcList'' (JArr []) this else this)
      in case get_prop this' ''epcList'' of
           JArr epcs \<Rightarrow> Inr (set_prop ''epcList'' (JArr (epcs @ [epc])) this')
         | _ \<Rightarrow> Inl TypeError)"

definition clearEPCList :: "props \<Rightarrow> props" where
  "clearEPCList this = delete_prop ''epcList'' this"

definition removeEPC :: "jsval \<Rightarrow> props \<Rightarrow> error + props" where
  "removeEPC epc this =
     (case get_prop this ''epcList'' of
        JArr epcs \<Rightarrow>
          Inr (set_prop ''epcList'' (JArr (filter (\<lambda>elem. \<not> strict_equal elem epc) epcs)) this)
      | _ \<Rightarrow> Inl TypeError)"

definition getEPCList :: "props \<Rightarrow> jsval" where
  "getEPCList this = get_prop this ''epcList''"

text \<open>
  The other list fields. \<open>addBizTransaction\<close>, \<open>addQuantity\<close>, \<open>addSource\<close>,
  \<open>addDestination\<close> and \<open>addSensorElement\<close> have the body of \<open>addEPC\<close>, each on the
  property \<open>field\<close> of its own; the \<open>clear\<close> of each deletes that property.
\<close>

definition add_to_list :: "string \<Rightarrow> jsval \<Rightarrow> props \<Rightarrow> error + props" where
  "add_to_list field x this =
     (let this' = (if \<not> truthy (get_prop this field)
                   then set_prop field (JArr []) this else this)
      in case get_prop this' field of
           JArr xs \<Rightarrow> Inr (set_prop field (JArr (xs @ [x])) this')
         | _ \<Rightarrow> Inl TypeError)"

definition addBizTransaction :: "jsval \<Rightarrow> props \<Rightarrow> error + props" where
  "addBizTransaction bizTransaction this = add_to_list ''bizTransactionList'' bizTransaction this"

definition addQuantity :: "jsval \<Rightarrow> props \<Rightarrow> error + props" where
  "addQuantity quantity this = add_to_list ''quantityList'' quantity this"

definition addSource :: "jsval \<Rightarrow> props \<Rightarrow> error + props" where
  "addSource source this = add_to_list ''sourceList'' source this"

definition addDestination :: "jsval \<Rightarrow> props \<Rightarrow> error + props" where
  "addDestination destination this = add_to_list ''destinationList'' destination this"

definition addSensorElement :: "jsval \<Rightarrow> props \<Rightarrow> error + props" where
  "addSensorElement sensorElement this = add_to_list ''sensorElementList'' sensorElement this"

definition clearBizTransactionList :: "props \<Rightarrow> props" where
  "clearBizTransactionList this = delete_prop ''bizTransactionList'' this"

definition clearQuantityList :: "props \<Rightarrow> props" where
  "clearQuantityList this = delete_prop ''quantityList'' this"

definition clearSourceList :: "props \<Rightarrow> props" where
  "clearSourceList this = delete_prop ''sourceList'' this"

definition clearDestinationList :: "props \<Rightarrow> props" where
  "clearDestinationList this = delete_prop ''destinationList'' this"

definition clearSensorElementList :: "props \<Rightarrow> props" where
  "clearSensorElementList this = delete_prop ''sensorElementList'' this"

definition setPersistentDisposition :: "jsval \<Rightarrow> props \<Rightarrow> props" where
  "setPersistentDisposition persistentDisposition this =
     set_prop ''persistentDisposition'' persistentDisposition this"

text \<open>
  \<open>setReadPoint\<close> and \<open>setBizLocation\<close>: a string is the id of a sub-entity that the
  setter allocates, with the identity \<open>i\<close>; any other value is stored as it is.
  \<open>new ReadPoint().setId(s)\<close> is not among the sources: by the spec (4.1, Sub-entity
  setters) it is the minimal sub-entity with only that id set.
\<close>

definition setReadPoint :: "nat \<Rightarrow> jsval \<Rightarrow> props \<Rightarrow> props" where
  "setReadPoint i readPoint this =
     (case readPoint of
        JStr s \<Rightarrow> set_prop ''readPoint'' (JEnt i [(''id'', JStr s)]) this
      | _ \<Rightarrow> set_prop ''readPoint'' readPoint this)"

definition setBizLocation :: "nat \<Rightarrow> jsval \<Rightarrow> props \<Rightarrow> props" where
  "setBizLocation i bizLocation this =
     (case bizLocation of
        JStr s \<Rightarrow> set_prop ''bizLocation'' (JEnt i [(''id'', JStr s)]) this
      | _ \<Rightarrow> set_prop ''bizLocation'' bizLocation this)"

text \<open>
  \<open>value.forEach((x) => this.add(new C(x)))\<close> of the constructor, on the elements of an
  array. The state is \<open>this\<close> with the number of the next sub-entity to allocate in the
  slot of the event.
\<close>

fun add_each ::
  "(jsval \<Rightarrow> props \<Rightarrow> error + props) \<Rightarrow> nat \<Rightarrow> jsval list \<Rightarrow> props \<times> nat \<Rightarrow>
   error + props \<times> nat" where
  "add_each add slot [] (this, j) = Inr (this, j)"
| "add_each add slot (x # xs) (this, j) =
     (case add (new_value_object (entity_id slot j) x) this of
        Inl err \<Rightarrow> Inl err
      | Inr this' \<Rightarrow> add_each add slot xs (this', Suc j))"

text \<open>\<open>value.forEach((epc) => this.addEPC(epc))\<close>: the elements are added as they are.\<close>

fun add_epcs :: "jsval list \<Rightarrow> props \<Rightarrow> error + props" where
  "add_epcs [] this = Inr this"
| "add_epcs (epc # epcs) this =
     (case addEPC epc this of
        Inl err \<Rightarrow> Inl err
      | Inr this' \<Rightarrow> add_epcs epcs this')"

text \<open>
  The \<open>switch\<close> of the constructor of \<open>TransactionEvent\<close> on one entry of the raw event.
  \<open>value.forEach\<close> on a value that is not an array throws a \<open>TypeError\<close>. The setters
  of \<open>readPoint\<close> and \<open>bizLocation\<close> are given the sub-entity just built, and the
  number after its own for the one they would allocate for a string.
\<close>

definition transaction_entry ::
  "nat \<Rightarrow> string \<Rightarrow> jsval \<Rightarrow> props \<times> nat \<Rightarrow> error + props \<times> nat" where
  "transaction_entry slot key v s =
     (if key = ''bizTransactionList'' then
        (case v of JArr xs \<Rightarrow> add_each addBizTransaction slot xs s | _ \<Rightarrow> Inl TypeError)
      else if key = ''epcList'' then
        (case v of
           JArr xs \<Rightarrow>
             (case add_epcs xs (fst s) of
                Inl err \<Rightarrow> Inl err
              | Inr this' \<Rightarrow> Inr (this', snd s))
         | _ \<Rightarrow> Inl TypeError)
      else if key = ''quantityList'' then
        (case v of JArr xs \<Rightarrow> add_each addQuantity slot xs s | _ \<Rightarrow> Inl TypeError)
      else if key = ''persistentDisposition'' then
        Inr (setPersistentDisposition (new_value_object (entity_id slot (snd s)) v) (fst s),
             Suc (snd s))
      else if key = ''sourceList'' then
        (case v of JArr xs \<Rightarrow> add_each addSource slot xs s | _ \<Rightarrow> Inl TypeError)
      else if key = ''destinationList'' then
        (case v of JArr xs \<Rightarrow> add_each addDestination slot xs s | _ \<Rightarrow> Inl TypeError)
      else if key = ''sensorElementList'' then
        (case v of JArr xs \<Rightarrow> add_each addSensorElement slot xs s | _ \<Rightarrow> Inl TypeError)
      else if key = ''readPoint'' then
        Inr (setReadPoint (entity_id slot (Suc (snd s)))
               (new_value_object (entity_id slot (snd s)) v) (fst s),
             Suc (Suc (snd s)))
      else if key = ''bizLocation'' then
        Inr (setBizLocation (entity_id slot (Suc (snd s)))
               (new_value_object (entity_id slot (snd s)) v) (fst s),
             Suc (Suc (snd s)))
      else Inr s)"

fun rebuild_transaction ::
  "nat \<Rightarrow> props \<Rightarrow> props \<times> nat \<Rightarrow> error + props \<times> nat" where
  "rebuild_transaction slot [] s = Inr s"
| "rebuild_transaction slot ((key, v) # entries) s =
     (case transaction_entry slot key v s of
        Inl err \<Rightarrow> Inl err
      | Inr s' \<Rightarrow> rebuild_transaction slot entries s')"

text \<open>
  \<open>new TransactionEvent(transactionEvent)\<close> in the slot \<open>slot\<close>; \<open>None\<close> is the call with
  no argument. \<open>super(transactionEvent)\<close> runs the constructor of \<open>Event\<close>, which is not
  among the sources and is taken to do what the constructor of \<open>Entity\<close> does: the
  six \<open>clear\<close> calls that follow it delete the raw lists it copied.
\<close>

definition new_TransactionEvent :: "nat \<Rightarrow> props option \<Rightarrow> error + jsval" where
  "new_TransactionEvent slot transactionEvent =
     (let this = set_prop ''isA'' (JStr ''TransactionEvent'') (Entity_new transactionEvent)
      in case transactionEvent of
           None \<Rightarrow> Inr (JEnt (entity_id slot 0) this)
         | Some entries \<Rightarrow>
             (let this =
                    clearSensorElementList (clearDestinationList (clearSourceList
                      (clearQuantityList (clearEPCList (clearBizTransactionList this)))))
              in case rebuild_transaction slot entries (this, 1) of
                   Inl err \<Rightarrow> Inl err
                 | Inr s \<Rightarrow> Inr (JEnt (entity_id slot 0) (fst s))))"

text \<open>\<open>v instanceof Entity\<close>.\<close>

definition is_entity :: "jsval \<Rightarrow> bool" where
  "is_entity v = (case v of JEnt i ps \<Rightarrow> True | _ \<Rightarrow> False)"

text \<open>A raw value: no entity instance anywhere in it.\<close>

fun plain :: "jsval \<Rightarrow> bool"
  and plain_props :: "props \<Rightarrow> bool"
  and plain_elems :: "jsval list \<Rightarrow> bool" where
  "plain (JEnt i ps) = False"
| "plain (JArr xs) = plain_elems xs"
| "plain (JObj ps) = plain_props ps"
| "plain JUndefined = True"
| "plain JNull = True"
| "plain (JBool b) = True"
| "plain (JNum n) = True"
| "plain (JStr s) = True"
| "plain_props [] = True"
| "plain_props ((k, v) # ps) = (plain v \<and> plain_props ps)"
| "plain_elems [] = True"
| "plain_elems (x # xs) = (plain x \<and> plain_elems xs)"

text \<open>
  Modelled from the spec: the discriminator of a raw value (spec 4.1, Type dispatch, and
  4.4): its \<open>type\<close>, falling back to the legacy \<open>isA\<close> when there is no \<open>type\<close>.
  A value that is not an object has none.
\<close>

definition discriminator :: "jsval \<Rightarrow> jsval" where
  "discriminator v =
     (case v of
        JObj ps \<Rightarrow>
          (if get_prop ps ''type'' \<noteq> JUndefined then get_prop ps ''type''
           else get_prop ps ''isA'')
      | _ \<Rightarrow> JUndefined)"

text \<open>Modelled from the spec (6): the event-type discriminators that are recognized.\<close>

definition event_types :: "string list" where
  "event_types =
     [''ObjectEvent'', ''AggregationEvent'', ''TransactionEvent'',
      ''TransformationEvent'', ''AssociationEvent'']"

text \<open>
  Modelled from the spec: \<open>objectToEvent\<close> (\<open>src/utils/entityUtils\<close>, spec 4.1, Type
  dispatch): the discriminator selects one of the five event classes and the raw event
  goes to the constructor of that class; a discriminator that matches none fails with
  \<open>UnknownEventType\<close>. A \<open>TransactionEvent\<close> is built by its constructor. The
  constructors of the other four classes are not among the sources: there the instance
  holds the raw event's keys as the \<open>Entity\<close> constructor copies them, its sub-entities
  not rebuilt.
\<close>

definition objectToEvent :: "nat \<Rightarrow> jsval \<Rightarrow> error + jsval" where
  "objectToEvent slot event =
     (case (discriminator event, event) of
        (JStr t, JObj entries) \<Rightarrow>
          (if t = ''TransactionEvent'' then new_TransactionEvent slot (Some entries)
           else if t \<in> set event_types
             then Inr (JEnt (entity_id slot 0) (Entity_new (Some entries)))
           else Inl UnknownEventType)
      | _ \<Rightarrow> Inl UnknownEventType)"

text \<open>
  Modelled from the spec: the constructor of \<open>EPCISHeader\<close> (spec 3: an opaque
  sub-entity with no invariant beyond round-trip fidelity): the raw header's keys as the
  \<open>Entity\<close> constructor copies them.
\<close>

definition new_EPCISHeader :: "nat \<Rightarrow> jsval \<Rightarrow> jsval" where
  "new_EPCISHeader slot header =
     JEnt (entity_id slot 0)
       (Entity_new (case header of JObj entries \<Rightarrow> Some entries | _ \<Rightarrow> None))"

text \<open>
  What one entry of the constructor's \<open>switch\<close> does to the own properties other than
  \<open>eventList\<close>: the projection of \<open>rebuild_entry\<close> that the proofs reason with.
\<close>

definition entry_own :: "(nat \<Rightarrow> jsval \<Rightarrow> jsval) \<Rightarrow> nat \<Rightarrow> string \<times> jsval \<Rightarrow> props \<Rightarrow> props" where
  "entry_own header_of oid entry ps =
     (if fst entry = ''isA'' then set_prop ''isA'' (snd entry) ps
      else if fst entry = ''epcisHeader''
        then set_prop ''epcisHeader'' (header_of oid (snd entry)) ps
      else ps)"

text \<open>
  An event that survives the round trip: \<open>to_event\<close> (\<open>objectToEvent\<close> at the slot
  it is given) returns an entity whose serialization is the raw event again.
\<close>

definition event_round_trips :: "(jsval \<Rightarrow> error + jsval) \<Rightarrow> jsval \<Rightarrow> bool" where
  "event_round_trips to_event x =
     (case to_event x of
        Inl err \<Rightarrow> False
      | Inr e \<Rightarrow> is_entity e \<and> field_out e = x)"

text \<open>\<open>new EPCISDocument(V).toObject()\<close>.\<close>

definition round_trip ::
  "settings \<Rightarrow> string \<Rightarrow> (nat \<Rightarrow> jsval \<Rightarrow> error + jsval) \<Rightarrow> (nat \<Rightarrow> jsval \<Rightarrow> jsval) \<Rightarrow>
   nat \<Rightarrow> props \<Rightarrow> error + props" where
  "round_trip st now event_of header_of oid V =
     (case new_EPCISDocument st now event_of header_of oid (Some V) of
        Inl err \<Rightarrow> Inl err
      | Inr doc \<Rightarrow> toObject doc)"

section \<open>Validation\<close>

text \<open>
  Modelled from the spec: \<open>src/schema/validator.js\<close> and the schema files are not among
  the sources (only their tests are). The catalogs are opaque (spec 1, 4.2): the
  registry of structural schemas, each a check that returns the structural violations
  of a value; the registry of field sets; the names of the registered document
  schemas; and, for the value under a known key of a node, the name of the field set
  that value has, if it is a structured node with a field set of its own (spec 4.3,
  step 2).
\<close>

record catalog =
  schemas :: "string \<Rightarrow> (jsval \<Rightarrow> violation list) option"
  field_sets :: "string \<Rightarrow> string list option"
  document_types :: "string list"
  node_field_set :: "string \<Rightarrow> string \<Rightarrow> jsval \<Rightarrow> string option"

text \<open>
  Modelled from the spec (4.2): \<open>validateAgainstSchema\<close> fails with
  \<open>UnknownSchemaError\<close> on a name that is not registered and otherwise returns the
  structural violations.
\<close>

definition validateAgainstSchema :: "catalog \<Rightarrow> jsval \<Rightarrow> string \<Rightarrow> error + violation list" where
  "validateAgainstSchema cat v schemaName =
     (case schemas cat schemaName of
        None \<Rightarrow> Inl UnknownSchemaError
      | Some check \<Rightarrow> Inr (check v))"

text \<open>
  Modelled from the spec (4.2): the own keys of a value; a value that is not an object
  has none.
\<close>

definition own_keys :: "jsval \<Rightarrow> string list" where
  "own_keys v = (case v of JObj ps \<Rightarrow> map fst ps | _ \<Rightarrow> [])"

text \<open>
  Modelled from the spec (4.2): \<open>ensureFieldSet\<close> fails with \<open>UnknownFieldSetError\<close> on
  a name that is not registered and otherwise partitions the own keys of the value
  into the known ones and the foreign ones.
\<close>

definition ensureFieldSet ::
  "catalog \<Rightarrow> jsval \<Rightarrow> string \<Rightarrow> error + (string list \<times> string list)" where
  "ensureFieldSet cat v fieldSetName =
     (case field_sets cat fieldSetName of
        None \<Rightarrow> Inl UnknownFieldSetError
      | Some fs \<Rightarrow>
          Inr (filter (\<lambda>k. k \<in> set fs) (own_keys v), filter (\<lambda>k. k \<notin> set fs) (own_keys v)))"

text \<open>
  Modelled from the spec (4.3, step 3): a key is namespace-qualified when it is
  \<open>prefix:localName\<close> with exactly one colon, a non-empty prefix and a non-empty local
  name.
\<close>

definition key_prefix :: "string \<Rightarrow> string" where
  "key_prefix k = takeWhile (\<lambda>c. c \<noteq> CHR '':'') k"

definition namespace_qualified :: "string \<Rightarrow> bool" where
  "namespace_qualified k =
     (let rest = dropWhile (\<lambda>c. c \<noteq> CHR '':'') k
      in key_prefix k \<noteq> [] \<and> rest \<noteq> [] \<and> tl rest \<noteq> [] \<and> CHR '':'' \<notin> set (tl rest))"

text \<open>
  Modelled from the spec (4.3, namespace-prefix collection): the keys of a single
  mapping, the merged keys of the mappings of a sequence, nothing for a string.
\<close>

definition context_prefixes :: "jsval \<Rightarrow> string list" where
  "context_prefixes context =
     (case context of
        JObj ps \<Rightarrow> map fst ps
      | JArr xs \<Rightarrow> concat (map own_keys xs)
      | _ \<Rightarrow> [])"

text \<open>
  Modelled from the spec (4.3, step 3): inside an extension subtree every key of every
  object, at any depth, must be namespace-qualified; arrays are walked element by
  element and scalars are accepted.
\<close>

fun ext_subtree :: "path \<Rightarrow> jsval \<Rightarrow> violation list"
  and ext_props :: "path \<Rightarrow> props \<Rightarrow> violation list"
  and ext_elems :: "path \<Rightarrow> nat \<Rightarrow> jsval list \<Rightarrow> violation list" where
  "ext_subtree p (JObj ps) = ext_props p ps"
| "ext_subtree p (JEnt i ps) = ext_props p ps"
| "ext_subtree p (JArr xs) = ext_elems p 0 xs"
| "ext_subtree p JUndefined = []"
| "ext_subtree p JNull = []"
| "ext_subtree p (JBool b) = []"
| "ext_subtree p (JNum n) = []"
| "ext_subtree p (JStr s) = []"
| "ext_props p [] = []"
| "ext_props p ((k, v) # ps) =
     (if namespace_qualified k then []
      else [ExtensionViolation (p @ [Key k]) ''extension key is not namespace-qualified''])
     @ ext_subtree (p @ [Key k]) v @ ext_props p ps"
| "ext_elems p i [] = []"
| "ext_elems p i (x # xs) = ext_subtree (p @ [Index i]) x @ ext_elems p (Suc i) xs"

text \<open>
  Modelled from the spec (4.3, step 3): one foreign key of a node. It must be
  namespace-qualified and its prefix must be declared in the context; its value is
  then the root of an extension subtree.
\<close>

definition check_foreign :: "string list \<Rightarrow> path \<Rightarrow> string \<Rightarrow> jsval \<Rightarrow> violation list" where
  "check_foreign prefixes p k v =
     (if \<not> namespace_qualified k
        then [ExtensionViolation (p @ [Key k]) ''extension key is not namespace-qualified'']
      else if key_prefix k \<notin> set prefixes
        then [ExtensionViolation (p @ [Key k]) ''namespace prefix is not declared'']
      else ext_subtree (p @ [Key k]) v)"

text \<open>
  Modelled from the spec (4.3, step 3): the foreign keys of a node, in the order of its
  keys.
\<close>

fun check_foreigns :: "string list \<Rightarrow> path \<Rightarrow> string list \<Rightarrow> props \<Rightarrow> violation list" where
  "check_foreigns prefixes p foreign [] = []"
| "check_foreigns prefixes p foreign ((k, v) # ps) =
     (if k \<in> set foreign then check_foreign prefixes p k v else [])
     @ check_foreigns prefixes p foreign ps"

text \<open>
  Modelled from the spec (4.3, steps 1, 2 and 4): extension validation of a node with
  a field set. \<open>ensureFieldSet\<close> splits the keys; the value under a known key is walked
  with its own field set when it has one (an array element by element); the foreign
  keys are checked; the violations are accumulated, and only an unknown field-set name
  aborts the walk.
\<close>

fun validate_node ::
  "catalog \<Rightarrow> string list \<Rightarrow> path \<Rightarrow> string \<Rightarrow> jsval \<Rightarrow> error + violation list"
  and validate_known ::
  "catalog \<Rightarrow> string list \<Rightarrow> path \<Rightarrow> string \<Rightarrow> string list \<Rightarrow> props \<Rightarrow> error + violation list"
  and validate_elems ::
  "catalog \<Rightarrow> string list \<Rightarrow> path \<Rightarrow> string \<Rightarrow> string \<Rightarrow> nat \<Rightarrow> jsval list \<Rightarrow>
   error + violation list" where
  "validate_node cat prefixes p N (JObj ps) =
     (case ensureFieldSet cat (JObj ps) N of
        Inl err \<Rightarrow> Inl err
      | Inr (known, foreign) \<Rightarrow>
          (case validate_known cat prefixes p N known ps of
             Inl err \<Rightarrow> Inl err
           | Inr vs \<Rightarrow> Inr (vs @ check_foreigns prefixes p foreign ps)))"
| "validate_node cat prefixes p N JUndefined = map_sum id (\<lambda>ks. []) (ensureFieldSet cat JUndefined N)"
| "validate_node cat prefixes p N JNull = map_sum id (\<lambda>ks. []) (ensureFieldSet cat JNull N)"
| "validate_node cat prefixes p N (JBool b) = map_sum id (\<lambda>ks. []) (ensureFieldSet cat (JBool b) N)"
| "validate_node cat prefixes p N (JNum n) = map_sum id (\<lambda>ks. []) (ensureFieldSet cat (JNum n) N)"
| "validate_node cat prefixes p N (JStr s) = map_sum id (\<lambda>ks. []) (ensureFieldSet cat (JStr s) N)"
| "validate_node cat prefixes p N (JArr xs) = map_sum id (\<lambda>ks. []) (ensureFieldSet cat (JArr xs) N)"
| "validate_node cat prefixes p N (JEnt i ps) = map_sum id (\<lambda>ks. []) (ensureFieldSet cat (JEnt i ps) N)"
| "validate_known cat prefixes p N known [] = Inr []"
| "validate_known cat prefixes p N known ((k, v) # ps) =
     (case (if k \<in> set known then
              (case v of
                 JArr xs \<Rightarrow> validate_elems cat prefixes (p @ [Key k]) N k 0 xs
               | _ \<Rightarrow>
                   (case node_field_set cat N k v of
                      None \<Rightarrow> Inr []
                    | Some M \<Rightarrow> validate_node cat prefixes (p @ [Key k]) M v))
            else Inr []) of
        Inl err \<Rightarrow> Inl err
      | Inr vs \<Rightarrow>
          (case validate_known cat prefixes p N known ps of
             Inl err \<Rightarrow> Inl err
           | Inr ws \<Rightarrow> Inr (vs @ ws)))"
| "validate_elems cat prefixes p N k i [] = Inr []"
| "validate_elems cat prefixes p N k i (x # xs) =
     (case (case node_field_set cat N k x of
              None \<Rightarrow> Inr []
            | Some M \<Rightarrow> validate_node cat prefixes (p @ [Index i]) M x) of
        Inl err \<Rightarrow> Inl err
      | Inr vs \<Rightarrow>
          (case validate_elems cat prefixes p N k (Suc i) xs of
             Inl err \<Rightarrow> Inl err
           | Inr ws \<Rightarrow> Inr (vs @ ws)))"

text \<open>
  Modelled from the spec (4.4): the document-level discriminator resolves when it names
  one of the registered document schemas.
\<close>

definition document_type :: "catalog \<Rightarrow> jsval \<Rightarrow> string option" where
  "document_type cat doc =
     (case discriminator doc of
        JStr t \<Rightarrow> (if t \<in> set (document_types cat) then Some t else None)
      | _ \<Rightarrow> None)"

text \<open>Modelled from the spec (4.4, 6): the events of the body, singular or plural form.\<close>

definition body_events :: "jsval \<Rightarrow> jsval list" where
  "body_events doc =
     (case doc of
        JObj ps \<Rightarrow>
          (case get_prop ps ''epcisBody'' of
             JObj body \<Rightarrow>
               (if get_prop body ''event'' \<noteq> JUndefined then [get_prop body ''event'']
                else (case get_prop body ''eventList'' of JArr xs \<Rightarrow> xs | _ \<Rightarrow> []))
           | _ \<Rightarrow> [])
      | _ \<Rightarrow> [])"

text \<open>
  Modelled from the spec (4.4, step 2, and 7): the structural check of each event
  against the schema of its own type; an event whose discriminator names no event type
  aborts with \<open>UnknownEventType\<close>.
\<close>

fun validate_events :: "catalog \<Rightarrow> jsval list \<Rightarrow> error + violation list" where
  "validate_events cat [] = Inr []"
| "validate_events cat (event # events) =
     (case (case discriminator event of
              JStr t \<Rightarrow>
                (if t \<in> set event_types then validateAgainstSchema cat event t
                 else Inl UnknownEventType)
            | _ \<Rightarrow> Inl UnknownEventType) of
        Inl err \<Rightarrow> Inl err
      | Inr vs \<Rightarrow>
          (case validate_events cat events of
             Inl err \<Rightarrow> Inl err
           | Inr ws \<Rightarrow> Inr (vs @ ws)))"

text \<open>
  Modelled from the spec (3, 4.3): the \<open>@context\<close> of the document, which declares the
  namespace prefixes.
\<close>

definition document_context :: "jsval \<Rightarrow> jsval" where
  "document_context doc = (case doc of JObj ps \<Rightarrow> get_prop ps ''@context'' | _ \<Rightarrow> JUndefined)"

text \<open>Modelled from the spec (4.4): the result of the collect mode.\<close>

record validation_result =
  success :: bool
  errors :: "violation list"

text \<open>
  Modelled from the spec (4.4): \<open>validateEpcisDocument\<close> in collect mode. The
  discriminator is resolved first; then the structural check of the document, the
  structural check of each event and the extension validation of the whole tree are
  run and their violations collected.
\<close>

definition validateEpcisDocument :: "catalog \<Rightarrow> jsval \<Rightarrow> error + validation_result" where
  "validateEpcisDocument cat doc =
     (case document_type cat doc of
        None \<Rightarrow> Inl UnknownDocumentType
      | Some T \<Rightarrow>
          (case validateAgainstSchema cat doc T of
             Inl err \<Rightarrow> Inl err
           | Inr structural \<Rightarrow>
               (case validate_events cat (body_events doc) of
                  Inl err \<Rightarrow> Inl err
                | Inr of_events \<Rightarrow>
                    (case validate_node cat (context_prefixes (document_context doc)) [] T doc of
                       Inl err \<Rightarrow> Inl err
                     | Inr of_extensions \<Rightarrow>
                         (let all = structural @ of_events @ of_extensions
                          in Inr \<lparr>success = (all = []), errors = all\<rparr>)))))"

text \<open>
  Modelled from the spec (4.4, result contract): the assert mode throws the aggregate of
  the same violations and returns true when there is none.
\<close>

definition validateEpcisDocument_assert :: "catalog \<Rightarrow> jsval \<Rightarrow> error + bool" where
  "validateEpcisDocument_assert cat doc =
     (case validateEpcisDocument cat doc of
        Inl err \<Rightarrow> Inl err
      | Inr r \<Rightarrow> (if success r then Inr True else Inl (ValidationError (errors r))))"

text \<open>
  A node that the walk of \<open>validate_node\<close> reaches from a node of field set \<open>N\<close>: the
  node itself, or a node reached from the value (or from an array element of the
  value) under a known key, when that value has a field set of its own.
\<close>

inductive reaches :: "catalog \<Rightarrow> string \<Rightarrow> jsval \<Rightarrow> string \<Rightarrow> jsval \<Rightarrow> bool" where
  here: "reaches cat N node N node"
| child: "(k, v) \<in> set ps \<Longrightarrow> field_sets cat N = Some fs \<Longrightarrow> k \<in> set fs \<Longrightarrow>
     (\<forall>xs. v \<noteq> JArr xs) \<Longrightarrow> node_field_set cat N k v = Some M \<Longrightarrow>
     reaches cat M v M' w \<Longrightarrow> reaches cat N (JObj ps) M' w"
| element: "(k, JArr xs) \<in> set ps \<Longrightarrow> field_sets cat N = Some fs \<Longrightarrow> k \<in> set fs \<Longrightarrow>
     x \<in> set xs \<Longrightarrow> node_field_set cat N k x = Some M \<Longrightarrow>
     reaches cat M x M' w \<Longrightarrow> reaches cat N (JObj ps) M' w"

text \<open>
  A list of violations that holds an extension violation at the key \<open>k\<close> (the last
  segment of its path), and a result of validation that fails for it: by throwing, or
  by reporting such a violation.
\<close>

definition reports_key :: "string \<Rightarrow> violation list \<Rightarrow> bool" where
  "reports_key k vs =
     list_ex (\<lambda>v. case v of
                     ExtensionViolation p m \<Rightarrow> p \<noteq> [] \<and> last p = Key k
                   | StructuralViolation p m \<Rightarrow> False) vs"

definition rejected :: "string \<Rightarrow> error + violation list \<Rightarrow> bool" where
  "rejected k r = (case r of Inl err \<Rightarrow> True | Inr vs \<Rightarrow> reports_key k vs)"

text \<open>
  The catalog of the examples: the document and event types of the spec (6), schemas
  with no structural constraint, and field sets with the keys that the documents of
  \<open>test/validator.spec.js\<close> use.
\<close>

definition test_catalog :: catalog where
  "test_catalog =
     \<lparr> schemas = (\<lambda>n. if n \<in> set ([''EPCISDocument'', ''EPCISQueryDocument''] @ event_types)
                        then Some (\<lambda>v. []) else None),
       field_sets = map_of
         [(''EPCISDocument'',
             [''@context'', ''type'', ''schemaVersion'', ''creationDate'', ''epcisBody'']),
          (''EPCISBody'', [''event'', ''eventList'']),
          (''ObjectEvent'',
             [''eventID'', ''type'', ''action'', ''bizStep'', ''disposition'', ''epcList'',
              ''eventTime'', ''eventTimeZoneOffset'', ''readPoint'', ''bizLocation'',
              ''bizTransactionList'', ''sensorElementList'']),
          (''ReadPoint'', [''id'']),
          (''BizLocation'', [''id'']),
          (''SensorElement'', [''sensorMetadata'', ''sensorReport''])],
       document_types = [''EPCISDocument'', ''EPCISQueryDocument''],
       node_field_set = (\<lambda>N k v.
         if k = ''epcisBody'' then Some ''EPCISBody''
         else if k = ''event'' \<or> k = ''eventList'' then
           (case discriminator v of JStr t \<Rightarrow> Some t | _ \<Rightarrow> None)
         else if k = ''readPoint'' then Some ''ReadPoint''
         else if k = ''bizLocation'' then Some ''BizLocation''
         else if k = ''sensorElementList'' then Some ''SensorElement''
         else None) \<rparr>"

section \<open>Facts about property lists and serialization\<close>

lemma get_prop_Nil [simp]: "get_prop [] k = JUndefined"
  by (simp add: get_prop_def)

lemma get_prop_Cons [simp]:
  "get_prop ((k', v) # ps) k = (if k' = k then v else get_prop ps k)"
  by (simp add: get_prop_def)

lemma get_prop_absent: "k \<notin> set (map fst ps) \<Longrightarrow> get_prop ps k = JUndefined"
  by (induction ps) auto

lemma get_prop_set_prop:
  "get_prop (set_prop k v ps) k' = (if k' = k then v else get_prop ps k')"
  by (induction ps) auto

lemma keys_set_prop: "set (map fst (set_prop k v ps)) = insert k (set (map fst ps))"
proof (induction ps)
  case Nil
  show ?case by simp
next
  case (Cons p ps)
  obtain k' v' where p: "p = (k', v')" by (cases p)
  show ?case
  proof (cases "k' = k")
    case True
    then show ?thesis by (simp add: p)
  next
    case False
    have "set (map fst (set_prop k v (p # ps))) = insert k' (set (map fst (set_prop k v ps)))"
      using False by (simp add: p)
    also have "\<dots> = insert k' (insert k (set (map fst ps)))"
      by (simp only: Cons.IH)
    finally show ?thesis by (simp add: p insert_commute)
  qed
qed

lemma get_prop_delete_prop:
  "get_prop (delete_prop k ps) k' = (if k' = k then JUndefined else get_prop ps k')"
  by (induction ps) (auto simp: delete_prop_def)

lemma keys_delete_prop: "set (map fst (delete_prop k ps)) = set (map fst ps) - {k}"
  by (induction ps) (auto simp: delete_prop_def)

lemma get_prop_append:
  "get_prop (ps @ qs) k = (if k \<in> set (map fst ps) then get_prop ps k else get_prop qs k)"
proof (induction ps)
  case Nil
  show ?case by simp
next
  case (Cons p ps)
  obtain k' v' where p: "p = (k', v')" by (cases p)
  show ?case using Cons.IH by (simp add: p)
qed

lemma keys_Entity_toObject: "map fst (Entity_toObject ps) = map fst ps"
  by (induction ps) auto

lemma truthy_field_out: "truthy (field_out v) = truthy v"
  by (cases v) auto

lemma get_prop_Entity_toObject: "get_prop (Entity_toObject ps) k = field_out (get_prop ps k)"
  by (induction ps) auto

lemma set_prop_same: "map_of ps k = Some v \<Longrightarrow> set_prop k v ps = ps"
  by (induction ps) (auto split: if_splits)

lemma delete_prop_absent: "k \<notin> set (map fst ps) \<Longrightarrow> delete_prop k ps = ps"
  by (induction ps) (auto simp: delete_prop_def)


lemma call_toObject_entity: "is_entity e \<Longrightarrow> call_toObject e = Inr (field_out e)"
  by (cases e) (auto simp: is_entity_def)

lemma wrap_body_event:
  "truthy ev \<Longrightarrow>
   wrap_body (set_prop ''event'' ev output) None =
     set_prop ''epcisBody'' (JObj [(''event'', ev)]) (delete_prop ''event'' (set_prop ''event'' ev output))"
  by (simp add: wrap_body_def get_prop_set_prop)

lemma wrap_body_no_event:
  "''event'' \<notin> set (map fst output) \<Longrightarrow>
   wrap_body output evl =
     (case evl of Some evs \<Rightarrow> set_prop ''epcisBody'' (JObj [(''eventList'', JArr evs)]) output
      | None \<Rightarrow> output)"
  by (simp add: wrap_body_def get_prop_absent)

lemma truthy_entity_out: "is_entity e \<Longrightarrow> truthy (field_out e)"
  by (cases e) (auto simp: is_entity_def)

lemma output_no_event:
  "''event'' \<notin> set (map fst ps) \<Longrightarrow>
   ''event'' \<notin> set (map fst (delete_prop ''useEventListByDefault'' (Entity_toObject ps)))"
  by (simp only: keys_delete_prop keys_Entity_toObject) simp

lemma get_prop_JArr_map_of: "get_prop ps k = JArr xs \<Longrightarrow> map_of ps k = Some (JArr xs)"
  by (simp add: get_prop_def split: option.splits)

lemma init_defaults_None:
  "eventList (init_defaults st now None) = None
   \<and> getUseEventListByDefault (init_defaults st now None) = useEventListByDefault st"
  by (simp add: init_defaults_def Entity_new_def as_document_def delete_prop_def setIsA_def
      setUseEventListByDefault_def setContext_def getContext_def setSchemaVersion_def
      getSchemaVersion_def setCreationDate_def getCreationDate_def
      getUseEventListByDefault_def Let_def get_prop_set_prop)

section \<open>Facts about the constructor\<close>

lemma set_prop_absent: "k \<notin> set (map fst ps) \<Longrightarrow> set_prop k v ps = ps @ [(k, v)]"
  by (induction ps) auto

lemma fold_set_prop_fresh:
  "distinct (map fst es) \<Longrightarrow> set (map fst es) \<inter> set (map fst acc) = {} \<Longrightarrow>
   fold (\<lambda>(key, v) this. set_prop key v this) es acc = acc @ es"
proof (induction es arbitrary: acc)
  case Nil
  show ?case by simp
next
  case (Cons e es)
  obtain k v where e: "e = (k, v)" by (cases e)
  have k: "k \<notin> set (map fst acc)" using Cons.prems(2) by (auto simp: e)
  have "fold (\<lambda>(key, v) this. set_prop key v this) es (acc @ [(k, v)]) = (acc @ [(k, v)]) @ es"
    using Cons.prems by (intro Cons.IH) (auto simp: e)
  then show ?case using k by (simp add: e set_prop_absent)
qed

lemma Entity_new_distinct: "distinct (map fst es) \<Longrightarrow> Entity_new (Some es) = es"
  using fold_set_prop_fresh [of es "[]"] by (simp add: Entity_new_def)

lemma add_events_own: "add_events eo oid xs d = Inr d' \<Longrightarrow> own d' = own d"
  by (induction xs arbitrary: d) (auto simp: addEvent_def split: sum.splits)

lemma rebuild_entry_own:
  "rebuild_entry eo ho oid key v d = Inr d' \<Longrightarrow> own d' = entry_own ho oid (key, v) (own d)"
  by (auto simp: rebuild_entry_def entry_own_def setIsA_def setEPCISHeader_def addEvent_def
      dest: add_events_own split: if_splits sum.splits jsval.splits)

lemma rebuild_own:
  "rebuild eo ho oid es d = Inr d' \<Longrightarrow> own d' = fold (entry_own ho oid) es (own d)"
proof (induction es arbitrary: d)
  case Nil
  then show ?case by simp
next
  case (Cons e es)
  obtain k v where e: "e = (k, v)" by (cases e)
  from Cons.prems obtain d1 where
    d1: "rebuild_entry eo ho oid k v d = Inr d1" and r: "rebuild eo ho oid es d1 = Inr d'"
    by (auto simp: e split: sum.splits)
  show ?case using Cons.IH [OF r] rebuild_entry_own [OF d1] by (simp add: e)
qed

lemma rebuild_entry_other:
  "key \<noteq> ''epcisBody'' \<Longrightarrow>
   rebuild_entry eo ho oid key v d = Inr (d\<lparr>own := entry_own ho oid (key, v) (own d)\<rparr>)"
  by (simp add: rebuild_entry_def entry_own_def setIsA_def setEPCISHeader_def)

lemma rebuild_no_body:
  "''epcisBody'' \<notin> set (map fst es) \<Longrightarrow>
   rebuild eo ho oid es d = Inr (d\<lparr>own := fold (entry_own ho oid) es (own d)\<rparr>)"
proof (induction es arbitrary: d)
  case Nil
  show ?case by simp
next
  case (Cons e es)
  obtain k v where e: "e = (k, v)" by (cases e)
  have k: "k \<noteq> ''epcisBody''" using Cons.prems by (auto simp: e)
  have "''epcisBody'' \<notin> set (map fst es)" using Cons.prems by simp
  then show ?case using k by (simp add: e rebuild_entry_other Cons.IH)
qed

lemma add_events_indep:
  "eventList d2 = eventList d \<Longrightarrow>
   add_events eo oid xs d2 =
     map_sum id (\<lambda>d1. d2\<lparr>eventList := eventList d1\<rparr>) (add_events eo oid xs d)"
proof (induction xs arbitrary: d d2)
  case Nil
  then show ?case by simp
next
  case (Cons x xs)
  have i: "event_id oid d2 = event_id oid d" using Cons.prems by (simp add: event_id_def)
  show ?case
  proof (cases "eo (event_id oid d) x")
    case (Inl err)
    then show ?thesis by (simp add: i)
  next
    case (Inr e)
    have "eventList (addEvent e d2) = eventList (addEvent e d)"
      using Cons.prems by (simp add: addEvent_def)
    from Cons.IH [OF this] show ?thesis
      by (cases "add_events eo oid xs (addEvent e d)") (simp_all add: i Inr addEvent_def)
  qed
qed

lemma body_entry_indep:
  "eventList d2 = eventList d \<Longrightarrow>
   rebuild_entry eo ho oid ''epcisBody'' B d2 =
     map_sum id (\<lambda>d1. d2\<lparr>eventList := eventList d1\<rparr>) (rebuild_entry eo ho oid ''epcisBody'' B d)"
  using add_events_indep [of d2 d eo oid]
  by (auto simp: rebuild_entry_def event_id_def addEvent_def split: sum.splits jsval.splits)

lemma rebuild_body:
  "distinct (map fst es) \<Longrightarrow> map_of es ''epcisBody'' = Some B \<Longrightarrow>
   rebuild eo ho oid es d =
     map_sum id (\<lambda>d1. \<lparr>own = fold (entry_own ho oid) es (own d), eventList = eventList d1\<rparr>)
       (rebuild_entry eo ho oid ''epcisBody'' B d)"
proof (induction es arbitrary: d)
  case Nil
  then show ?case by simp
next
  case (Cons e es)
  obtain k v where e: "e = (k, v)" by (cases e)
  show ?case
  proof (cases "k = ''epcisBody''")
    case True
    then have v: "v = B" using Cons.prems(2) by (simp add: e)
    have nb: "''epcisBody'' \<notin> set (map fst es)" using Cons.prems(1) True by (simp add: e)
    show ?thesis
    proof (cases "rebuild_entry eo ho oid ''epcisBody'' B d")
      case (Inl err)
      then show ?thesis by (simp add: e True v)
    next
      case (Inr d1)
      have o: "own d1 = own d"
        using rebuild_entry_own [OF Inr] by (simp add: entry_own_def)
      have f: "entry_own ho oid (''epcisBody'', B) (own d) = own d"
        by (simp add: entry_own_def)
      show ?thesis
        using Inr o by (cases d1) (simp add: e True v rebuild_no_body [OF nb] f)
    qed
  next
    case False
    have d: "distinct (map fst es)" using Cons.prems(1) by simp
    have m: "map_of es ''epcisBody'' = Some B" using Cons.prems(2) False by (simp add: e)
    let ?d2 = "d\<lparr>own := entry_own ho oid (k, v) (own d)\<rparr>"
    have i: "rebuild_entry eo ho oid ''epcisBody'' B ?d2 =
       map_sum id (\<lambda>d1. ?d2\<lparr>eventList := eventList d1\<rparr>) (rebuild_entry eo ho oid ''epcisBody'' B d)"
      by (rule body_entry_indep) simp
    show ?thesis
      using Cons.IH [OF d m, of ?d2] False
      by (cases "rebuild_entry eo ho oid ''epcisBody'' B d")
        (simp_all add: e rebuild_entry_other i)
  qed
qed

lemma init_defaults_get:
  "getContext (init_defaults st now raw) =
     (if truthy (get_prop (Entity_new raw) ''@context'')
      then get_prop (Entity_new raw) ''@context'' else EPCISDocumentContext st)"
  "getSchemaVersion (init_defaults st now raw) =
     (if truthy (get_prop (Entity_new raw) ''schemaVersion'')
      then get_prop (Entity_new raw) ''schemaVersion'' else EPCISDocumentSchemaVersion st)"
  "getCreationDate (init_defaults st now raw) =
     (if truthy (get_prop (Entity_new raw) ''creationDate'')
      then get_prop (Entity_new raw) ''creationDate'' else JStr now)"
  by (simp_all add: init_defaults_def as_document_def setIsA_def
      setUseEventListByDefault_def setContext_def getContext_def setSchemaVersion_def
      getSchemaVersion_def setCreationDate_def getCreationDate_def
      Let_def get_prop_set_prop get_prop_delete_prop)

lemma init_defaults_eventList:
  "eventList (init_defaults st now raw) =
     (case get_prop (Entity_new raw) ''eventList'' of JArr xs \<Rightarrow> Some xs | _ \<Rightarrow> None)"
  by (simp add: init_defaults_def as_document_def setIsA_def
      setUseEventListByDefault_def setContext_def setSchemaVersion_def
      setCreationDate_def Let_def)

lemma fold_entry_own_get:
  "k \<noteq> ''isA'' \<Longrightarrow> k \<noteq> ''epcisHeader'' \<Longrightarrow>
   get_prop (fold (entry_own ho oid) es ps) k = get_prop ps k"
  by (induction es arbitrary: ps) (simp_all add: entry_own_def get_prop_set_prop)

lemma new_EPCISDocument_Some:
  "new_EPCISDocument st now eo ho oid (Some entries) =
     rebuild eo ho oid entries (init_defaults st now (Some entries))"
  by (simp add: new_EPCISDocument_def)

lemma new_EPCISDocument_None:
  "new_EPCISDocument st now eo ho oid None = Inr (init_defaults st now None)"
  by (simp add: new_EPCISDocument_def)

lemma map_of_set_prop:
  "map_of (set_prop k v ps) k' = (if k' = k then Some v else map_of ps k')"
  by (induction ps) auto

lemma keys_set_prop_present:
  "k \<in> set (map fst ps) \<Longrightarrow> map fst (set_prop k v ps) = map fst ps"
proof (induction ps)
  case Nil
  then show ?case by simp
next
  case (Cons p ps)
  obtain k' v' where p: "p = (k', v')" by (cases p)
  show ?case
  proof (cases "k' = k")
    case True
    then show ?thesis by (simp add: p)
  next
    case False
    then have "k \<in> set (map fst ps)" using Cons.prems by (simp add: p)
    then show ?thesis using False Cons.IH by (simp add: p)
  qed
qed

lemma map_of_delete_prop:
  "map_of (delete_prop k ps) k' = (if k' = k then None else map_of ps k')"
  by (induction ps) (auto simp: delete_prop_def)

lemma delete_prop_set_prop: "delete_prop k (set_prop k v ps) = delete_prop k ps"
  by (induction ps) (auto simp: delete_prop_def)

lemma delete_prop_append:
  "delete_prop k (ps @ qs) = delete_prop k ps @ delete_prop k qs"
  by (simp add: delete_prop_def)

lemma map_of_Entity_toObject:
  "map_of (Entity_toObject ps) k = map_option field_out (map_of ps k)"
  by (induction ps) auto

lemma Entity_toObject_append:
  "Entity_toObject (ps @ qs) = Entity_toObject ps @ Entity_toObject qs"
  by (induction ps) auto

lemma alist_eqI:
  "map fst a = map fst b \<Longrightarrow> distinct (map fst a) \<Longrightarrow>
   (\<forall>k\<in>set (map fst a). map_of a k = map_of b k) \<Longrightarrow> a = b"
proof (induction a arbitrary: b)
  case Nil
  then show ?case by simp
next
  case (Cons p a)
  obtain k v where p: "p = (k, v)" by (cases p)
  from Cons.prems(1) obtain q b' where b: "b = q # b'" by (cases b) auto
  obtain k' v' where q: "q = (k', v')" by (cases q)
  have kk: "k' = k" using Cons.prems(1) by (simp add: b p q)
  have "k \<in> set (map fst (p # a))" by (simp add: p)
  with Cons.prems(3) have "map_of (p # a) k = map_of b k" by blast
  then have vv: "v' = v" by (simp add: b p q kk)
  have nk: "k \<notin> set (map fst a)" using Cons.prems(2) by (simp add: p)
  have ag: "\<forall>x\<in>set (map fst a). map_of a x = map_of b' x"
  proof
    fix x assume x: "x \<in> set (map fst a)"
    then have xk: "x \<noteq> k" using nk by auto
    have "x \<in> set (map fst (p # a))" using x by simp
    with Cons.prems(3) have "map_of (p # a) x = map_of b x" by blast
    then show "map_of a x = map_of b' x"
      using xk by (simp add: b p q kk)
  qed
  have m: "map fst a = map fst b'" using Cons.prems(1) by (simp add: b)
  have da: "distinct (map fst a)" using Cons.prems(2) by simp
  have "a = b'" using m da ag by (rule Cons.IH)
  then show ?case by (simp add: b p q kk vv)
qed

lemma elems_out_plain: "plain_elems xs \<Longrightarrow> elems_out xs = xs"
proof (induction xs)
  case Nil
  show ?case by simp
next
  case (Cons x xs)
  then show ?case by (cases x) simp_all
qed

lemma field_out_plain: "plain v \<Longrightarrow> field_out v = v"
  by (cases v) (simp_all add: elems_out_plain)

lemma elems_out_Cons_entity:
  "is_entity e \<Longrightarrow> elems_out (e # es) = field_out e # elems_out es"
  by (cases e) (simp_all add: is_entity_def)

lemma elems_out_append: "elems_out (xs @ ys) = elems_out xs @ elems_out ys"
proof (induction xs)
  case Nil
  show ?case by simp
next
  case (Cons x xs)
  then show ?case by (cases x) simp_all
qed

lemma fold_entry_own_keys:
  "(\<forall>e\<in>set es. fst e = ''isA'' \<or> fst e = ''epcisHeader'' \<longrightarrow> fst e \<in> set (map fst ps)) \<Longrightarrow>
   map fst (fold (entry_own ho oid) es ps) = map fst ps"
proof (induction es arbitrary: ps)
  case Nil
  show ?case by simp
next
  case (Cons e es)
  have k: "map fst (entry_own ho oid e ps) = map fst ps"
    using Cons.prems by (auto simp: entry_own_def keys_set_prop_present simp del: set_map)
  have "map fst (fold (entry_own ho oid) es (entry_own ho oid e ps)) = map fst (entry_own ho oid e ps)"
    using Cons.prems by (intro Cons.IH) (simp add: k del: set_map)
  then show ?case by (simp add: k)
qed

lemma map_of_entry_own:
  "map_of (entry_own ho oid (k', v') ps) k =
     (if k' = ''isA'' \<and> k = ''isA'' then Some v'
      else if k' = ''epcisHeader'' \<and> k = ''epcisHeader'' then Some (ho oid v')
      else map_of ps k)"
  by (simp add: entry_own_def map_of_set_prop)

lemma fold_entry_own_map_of:
  "distinct (map fst es) \<Longrightarrow>
   map_of (fold (entry_own ho oid) es ps) k =
     (if k = ''isA'' \<and> k \<in> set (map fst es) then map_of es k
      else if k = ''epcisHeader'' \<and> k \<in> set (map fst es) then map_option (ho oid) (map_of es k)
      else map_of ps k)"
proof (induction es arbitrary: ps)
  case Nil
  show ?case by simp
next
  case (Cons e es)
  obtain k' v' where e: "e = (k', v')" by (cases e)
  have d: "distinct (map fst es)" and n: "k' \<notin> set (map fst es)"
    using Cons.prems by (simp_all add: e)
  have f: "fold (entry_own ho oid) (e # es) ps = fold (entry_own ho oid) es (entry_own ho oid e ps)"
    by simp
  have ih: "map_of (fold (entry_own ho oid) es (entry_own ho oid e ps)) k =
     (if k = ''isA'' \<and> k \<in> set (map fst es) then map_of es k
      else if k = ''epcisHeader'' \<and> k \<in> set (map fst es) then map_option (ho oid) (map_of es k)
      else map_of (entry_own ho oid e ps) k)"
    by (rule Cons.IH [OF d])
  show ?case
  proof (cases "k \<in> set (map fst es)")
    case True
    then have "k \<noteq> k'" using n by auto
    then show ?thesis using True
      by (simp only: f ih) (simp add: e map_of_entry_own)
  next
    case False
    then show ?thesis
      by (simp only: f ih) (auto simp: e map_of_entry_own)
  qed
qed

lemma keys_delete_prop_list: "map fst (delete_prop k ps) = filter (\<lambda>x. x \<noteq> k) (map fst ps)"
  by (induction ps) (auto simp: delete_prop_def)

lemma map_of_append_absent:
  "k \<notin> set (map fst qs) \<Longrightarrow> map_of (ps @ qs) k = map_of ps k"
proof -
  assume "k \<notin> set (map fst qs)"
  then have "map_of qs k = None" by (simp add: map_of_eq_None_iff)
  then show ?thesis by (cases "map_of ps k") (simp_all add: map_add_def)
qed

lemma init_own:
  assumes d: "distinct (map fst V)"
    and r: "''eventList'' \<notin> set (map fst V)" "''useEventListByDefault'' \<notin> set (map fst V)"
    and t: "truthy (get_prop V ''@context'')" "truthy (get_prop V ''schemaVersion'')"
      "truthy (get_prop V ''creationDate'')"
  shows "init_defaults st now (Some V) =
     \<lparr>own = set_prop ''isA'' (JStr ''EPCISDocument'') V
              @ [(''useEventListByDefault'', useEventListByDefault st)],
      eventList = None\<rparr>"
proof -
  have e: "Entity_new (Some V) = V" using d by (rule Entity_new_distinct)
  have a: "as_document V = \<lparr>own = V, eventList = None\<rparr>"
    using r(1) by (simp add: as_document_def delete_prop_absent get_prop_absent del: set_map)
  let ?V1 = "set_prop ''isA'' (JStr ''EPCISDocument'') V"
  have n: "''useEventListByDefault'' \<notin> set (map fst ?V1)"
    using r(2) by (simp add: keys_set_prop del: set_map)
  have s: "set_prop ''useEventListByDefault'' (useEventListByDefault st) ?V1
             = ?V1 @ [(''useEventListByDefault'', useEventListByDefault st)]"
    using n by (rule set_prop_absent)
  have g: "\<And>k. k \<noteq> ''isA'' \<Longrightarrow> k \<noteq> ''useEventListByDefault'' \<Longrightarrow>
     get_prop (?V1 @ [(''useEventListByDefault'', useEventListByDefault st)]) k = get_prop V k"
  proof -
    fix k :: string
    assume k: "k \<noteq> ''isA''" "k \<noteq> ''useEventListByDefault''"
    show "get_prop (?V1 @ [(''useEventListByDefault'', useEventListByDefault st)]) k = get_prop V k"
    proof (cases "k \<in> set (map fst ?V1)")
      case True
      then show ?thesis using k by (simp add: get_prop_append get_prop_set_prop del: set_map)
    next
      case False
      then have "k \<notin> set (map fst V)" by (simp add: keys_set_prop del: set_map)
      then have "get_prop V k = JUndefined" by (rule get_prop_absent)
      then show ?thesis using False k by (simp add: get_prop_append del: set_map)
    qed
  qed
  show ?thesis
    using t
    by (simp add: init_defaults_def e a setIsA_def setUseEventListByDefault_def s
        getContext_def getSchemaVersion_def getCreationDate_def g Let_def)
qed

lemma round_trip_own:
  fixes t :: jsval and V :: props
  assumes d: "distinct (map fst V)"
    and i: "''isA'' \<in> set (map fst V)"
    and r: "''useEventListByDefault'' \<notin> set (map fst V)"
    and p: "\<forall>e\<in>set V. fst e \<noteq> ''epcisHeader'' \<longrightarrow> plain (snd e)"
    and h: "\<forall>v. map_of V ''epcisHeader'' = Some v \<longrightarrow> field_out (ho oid v) = v"
  defines "own0 \<equiv> set_prop ''isA'' (JStr ''EPCISDocument'') V
                    @ [(''useEventListByDefault'', t)]"
  shows "delete_prop ''useEventListByDefault'' (Entity_toObject (fold (entry_own ho oid) V own0)) = V"
    and "get_prop (fold (entry_own ho oid) V own0) ''useEventListByDefault'' = t"
proof -
  let ?F = "fold (entry_own ho oid) V own0"
  let ?out = "delete_prop ''useEventListByDefault'' (Entity_toObject ?F)"
  have k0: "map fst own0 = map fst V @ [''useEventListByDefault'']"
    using i by (simp add: own0_def keys_set_prop_present del: set_map)
  have "\<forall>e\<in>set V. fst e = ''isA'' \<or> fst e = ''epcisHeader'' \<longrightarrow> fst e \<in> set (map fst own0)"
    by (auto simp: k0)
  then have kF: "map fst ?F = map fst V @ [''useEventListByDefault'']"
    using fold_entry_own_keys [of V own0 ho oid] by (simp add: k0)
  have ko: "map fst ?out = map fst V"
  proof -
    have "filter (\<lambda>x. x \<noteq> ''useEventListByDefault'') (map fst V) = map fst V"
      using r by (intro filter_True) blast
    then show ?thesis
      by (simp add: keys_delete_prop_list keys_Entity_toObject kF del: set_map)
  qed
  have m0: "\<And>k. k \<noteq> ''isA'' \<Longrightarrow> k \<noteq> ''useEventListByDefault'' \<Longrightarrow> map_of own0 k = map_of V k"
    by (simp add: own0_def map_add_def map_of_set_prop split: option.splits)
  have nt: "map_of V ''useEventListByDefault'' = None"
    using r by (simp add: map_of_eq_None_iff)
  have mt: "map_of own0 ''useEventListByDefault'' = Some t"
    by (simp add: own0_def map_add_def map_of_set_prop nt)
  have mF: "\<And>k. map_of ?F k =
     (if k = ''isA'' \<and> k \<in> set (map fst V) then map_of V k
      else if k = ''epcisHeader'' \<and> k \<in> set (map fst V) then map_option (ho oid) (map_of V k)
      else map_of own0 k)"
    using d by (rule fold_entry_own_map_of)
  have "map_of ?F ''useEventListByDefault'' = Some t"
    by (simp add: mF mt)
  then show "get_prop ?F ''useEventListByDefault'' = t"
    by (simp add: get_prop_def)
  have ag: "\<forall>k\<in>set (map fst V). map_of V k = map_of ?out k"
  proof
    fix k assume k: "k \<in> set (map fst V)"
    then obtain v where v: "map_of V k = Some v"
      by (metis domD dom_map_of_conv_image_fst set_map)
    then have mem: "(k, v) \<in> set V" by (rule map_of_SomeD)
    have kt: "k \<noteq> ''useEventListByDefault''" using k r by blast
    show "map_of V k = map_of ?out k"
    proof (cases "k = ''epcisHeader''")
      case True
      then have "field_out (ho oid v) = v" using h v by simp
      then show ?thesis using True k v
        by (simp add: map_of_delete_prop map_of_Entity_toObject mF del: set_map)
    next
      case False
      have "plain (snd (k, v))" using p mem False by (metis fst_conv)
      then have pv: "field_out v = v" by (simp add: field_out_plain)
      show ?thesis
      proof (cases "k = ''isA''")
        case True
        then show ?thesis using k v pv kt
          by (simp add: map_of_delete_prop map_of_Entity_toObject mF del: set_map)
      next
        case F2: False
        then show ?thesis using False k v pv kt
          by (simp add: map_of_delete_prop map_of_Entity_toObject mF m0 del: set_map)
      qed
    qed
  qed
  have "V = ?out"
    using ko [symmetric] d ag by (rule alist_eqI)
  then show "?out = V" by simp
qed

lemma add_events_round_trip:
  "(\<forall>n. \<forall>x\<in>set xs. event_round_trips (eo n) x) \<Longrightarrow>
   \<exists>es. add_events eo oid xs d =
          Inr (d\<lparr>eventList :=
                 (if xs = [] then eventList d
                  else Some ((case eventList d of None \<Rightarrow> [] | Some l \<Rightarrow> l) @ es))\<rparr>)
        \<and> elems_out es = xs \<and> length es = length xs"
proof (induction xs arbitrary: d)
  case Nil
  show ?case by simp
next
  case (Cons x xs)
  have "event_round_trips (eo (event_id oid d)) x" using Cons.prems by simp
  then obtain e where e: "eo (event_id oid d) x = Inr e" "is_entity e" "field_out e = x"
    by (auto simp: event_round_trips_def split: sum.splits)
  have "\<forall>n. \<forall>x\<in>set xs. event_round_trips (eo n) x" using Cons.prems by simp
  from Cons.IH [OF this, of "addEvent e d"] obtain es where
    r: "add_events eo oid xs (addEvent e d) =
          Inr ((addEvent e d)\<lparr>eventList :=
                 (if xs = [] then eventList (addEvent e d)
                  else Some ((case eventList (addEvent e d) of None \<Rightarrow> [] | Some l \<Rightarrow> l) @ es))\<rparr>)"
    and o: "elems_out es = xs" and l: "length es = length xs"
    by blast
  have o': "elems_out (e # es) = x # xs"
    using e o by (simp add: elems_out_Cons_entity)
  have "add_events eo oid (x # xs) d =
          Inr (d\<lparr>eventList := Some ((case eventList d of None \<Rightarrow> [] | Some l \<Rightarrow> l) @ e # es)\<rparr>)"
    using e(1) r l by (cases "xs = []") (simp_all add: addEvent_def)
  then show ?case using o' l by (intro exI [of _ "e # es"]) simp
qed

lemma toObject_round:
  assumes out: "delete_prop ''useEventListByDefault'' (Entity_toObject F) = V"
    and ne: "''event'' \<notin> set (map fst V)"
  shows "truthy (get_prop F ''useEventListByDefault'') \<Longrightarrow>
           toObject \<lparr>own = F, eventList = None\<rparr> = Inr V"
    and "truthy (get_prop F ''useEventListByDefault'') \<or> 2 \<le> length es \<Longrightarrow>
         map_of V ''epcisBody'' = Some (JObj [(''eventList'', JArr (elems_out es))]) \<Longrightarrow>
           toObject \<lparr>own = F, eventList = Some es\<rparr> = Inr V"
    and "\<not> truthy (get_prop F ''useEventListByDefault'') \<Longrightarrow> is_entity e \<Longrightarrow>
         map_of V ''epcisBody'' = Some (JObj [(''event'', field_out e)]) \<Longrightarrow>
           toObject \<lparr>own = F, eventList = Some [e]\<rparr> = Inr V"
proof -
  show "truthy (get_prop F ''useEventListByDefault'') \<Longrightarrow>
           toObject \<lparr>own = F, eventList = None\<rparr> = Inr V"
    using ne by (simp add: toObject_def out wrap_body_no_event)
  show "toObject \<lparr>own = F, eventList = Some es\<rparr> = Inr V"
    if t: "truthy (get_prop F ''useEventListByDefault'') \<or> 2 \<le> length es"
      and m: "map_of V ''epcisBody'' = Some (JObj [(''eventList'', JArr (elems_out es))])"
  proof -
    have "toObject \<lparr>own = F, eventList = Some es\<rparr> = Inr (wrap_body V (Some (elems_out es)))"
      using t by (auto simp: toObject_def out Let_def)
    then show ?thesis
      using ne m by (simp add: wrap_body_no_event set_prop_same)
  qed
  show "toObject \<lparr>own = F, eventList = Some [e]\<rparr> = Inr V"
    if t: "\<not> truthy (get_prop F ''useEventListByDefault'')" and e: "is_entity e"
      and m: "map_of V ''epcisBody'' = Some (JObj [(''event'', field_out e)])"
  proof -
    have "toObject \<lparr>own = F, eventList = Some [e]\<rparr>
            = Inr (wrap_body (set_prop ''event'' (field_out e) V) None)"
      using t e by (simp add: toObject_def out call_toObject_entity)
    also have "wrap_body (set_prop ''event'' (field_out e) V) None
            = set_prop ''epcisBody'' (JObj [(''event'', field_out e)])
                (delete_prop ''event'' (set_prop ''event'' (field_out e) V))"
      using e by (simp add: wrap_body_event truthy_entity_out)
    also have "delete_prop ''event'' (set_prop ''event'' (field_out e) V) = V"
      using ne by (simp add: delete_prop_set_prop delete_prop_absent del: set_map)
    also have "set_prop ''epcisBody'' (JObj [(''event'', field_out e)]) V = V"
      using m by (rule set_prop_same)
    finally show ?thesis .
  qed
qed

section \<open>Facts about the extension walk\<close>

lemma reports_key_append:
  "reports_key k (vs @ ws) = (reports_key k vs \<or> reports_key k ws)"
  by (simp add: reports_key_def list_ex_append)

lemma check_foreigns_unqualified:
  "(k, v) \<in> set ps \<Longrightarrow> k \<in> set foreign \<Longrightarrow> \<not> namespace_qualified k \<Longrightarrow>
   reports_key k (check_foreigns prefixes p foreign ps)"
proof (induction ps)
  case Nil
  then show ?case by simp
next
  case (Cons q ps)
  obtain k' v' where q: "q = (k', v')" by (cases q)
  show ?case
  proof (cases "q = (k, v)")
    case True
    then show ?thesis using Cons.prems(2,3)
      by (simp add: reports_key_append check_foreign_def) (simp add: reports_key_def)
  next
    case False
    then have "(k, v) \<in> set ps" using Cons.prems(1) by simp
    then have "reports_key k (check_foreigns prefixes p foreign ps)"
      using Cons.prems(2,3) by (rule Cons.IH)
    then show ?thesis by (simp add: q reports_key_append)
  qed
qed

lemma validate_node_foreign:
  assumes fs: "field_sets cat M = Some fs" and m: "(k, v) \<in> set qs"
    and f: "k \<notin> set fs" and u: "\<not> namespace_qualified k"
  shows "rejected k (validate_node cat prefixes p M (JObj qs))"
proof -
  let ?foreign = "filter (\<lambda>k. k \<notin> set fs) (map fst qs)"
  have "k \<in> set (map fst qs)" using m by force
  then have "k \<in> set ?foreign" using f by simp
  then have "reports_key k (check_foreigns prefixes p ?foreign qs)"
    using m u check_foreigns_unqualified by blast
  then show ?thesis
    by (simp add: ensureFieldSet_def fs own_keys_def rejected_def reports_key_append
        split: sum.splits)
qed

lemma rejected_bind:
  "rejected k r \<or> rejected k s \<Longrightarrow>
   rejected k (case r of Inl err \<Rightarrow> Inl err
               | Inr vs \<Rightarrow> (case s of Inl err \<Rightarrow> Inl err | Inr ws \<Rightarrow> Inr (vs @ ws)))"
  by (auto simp: rejected_def reports_key_append split: sum.splits)

lemma validate_elems_rejected:
  "x \<in> set xs \<Longrightarrow> node_field_set cat N k' x = Some M \<Longrightarrow>
   (\<forall>p. rejected k (validate_node cat prefixes p M x)) \<Longrightarrow>
   rejected k (validate_elems cat prefixes p N k' i xs)"
proof (induction xs arbitrary: i)
  case Nil
  then show ?case by simp
next
  case (Cons y ys)
  show ?case
  proof (cases "y = x")
    case True
    have "rejected k (case node_field_set cat N k' y of None \<Rightarrow> Inr []
              | Some M \<Rightarrow> validate_node cat prefixes (p @ [Index i]) M y)"
      using True Cons.prems(2,3) by simp
    then show ?thesis
      unfolding validate_elems.simps by (intro rejected_bind) simp
  next
    case False
    then have "x \<in> set ys" using Cons.prems(1) by simp
    then have "rejected k (validate_elems cat prefixes p N k' (Suc i) ys)"
      using Cons.prems(2,3) by (rule Cons.IH)
    then show ?thesis
      unfolding validate_elems.simps by (intro rejected_bind) simp
  qed
qed

lemma validate_known_rejected:
  assumes kn: "k' \<in> set known"
    and sub: "(\<forall>xs. v \<noteq> JArr xs) \<and> node_field_set cat N k' v = Some M
                \<and> (\<forall>p. rejected k (validate_node cat prefixes p M v))
            \<or> (\<exists>xs x. v = JArr xs \<and> x \<in> set xs \<and> node_field_set cat N k' x = Some M
                \<and> (\<forall>p. rejected k (validate_node cat prefixes p M x)))"
  shows "(k', v) \<in> set ps \<Longrightarrow> rejected k (validate_known cat prefixes p N known ps)"
proof (induction ps)
  case Nil
  then show ?case by simp
next
  case (Cons q ps)
  obtain k2 v2 where q: "q = (k2, v2)" by (cases q)
  show ?case
  proof (cases "q = (k', v)")
    case True
    then have e: "k2 = k'" "v2 = v" by (simp_all add: q)
    have "rejected k (if k' \<in> set known then
              (case v of
                 JArr xs \<Rightarrow> validate_elems cat prefixes (p @ [Key k']) N k' 0 xs
               | _ \<Rightarrow>
                   (case node_field_set cat N k' v of
                      None \<Rightarrow> Inr []
                    | Some M \<Rightarrow> validate_node cat prefixes (p @ [Key k']) M v))
            else Inr [])"
      using sub
    proof
      assume a: "(\<forall>xs. v \<noteq> JArr xs) \<and> node_field_set cat N k' v = Some M
                \<and> (\<forall>p. rejected k (validate_node cat prefixes p M v))"
      then show ?thesis using kn by (cases v) simp_all
    next
      assume "\<exists>xs x. v = JArr xs \<and> x \<in> set xs \<and> node_field_set cat N k' x = Some M
                \<and> (\<forall>p. rejected k (validate_node cat prefixes p M x))"
      then obtain xs x where a: "v = JArr xs" "x \<in> set xs" "node_field_set cat N k' x = Some M"
        "\<forall>p. rejected k (validate_node cat prefixes p M x)" by blast
      have "rejected k (validate_elems cat prefixes (p @ [Key k']) N k' 0 xs)"
        using a(2,3,4) by (rule validate_elems_rejected)
      then show ?thesis using kn a(1) by simp
    qed
    then show ?thesis
      unfolding q e validate_known.simps by (intro rejected_bind) simp
  next
    case False
    then have "(k', v) \<in> set ps" using Cons.prems by simp
    then have "rejected k (validate_known cat prefixes p N known ps)" by (rule Cons.IH)
    then show ?thesis
      unfolding q validate_known.simps by (intro rejected_bind) simp
  qed
qed

lemma validate_node_known:
  assumes fs: "field_sets cat N = Some fs" and m: "(k', v) \<in> set ps" and kn: "k' \<in> set fs"
    and r: "rejected k (validate_known cat prefixes p N (filter (\<lambda>k. k \<in> set fs) (map fst ps)) ps)"
  shows "rejected k (validate_node cat prefixes p N (JObj ps))"
  using r
  by (auto simp: ensureFieldSet_def fs own_keys_def rejected_def reports_key_append
      split: sum.splits)

lemma reaches_rejected:
  assumes "reaches cat N node M w"
    and "w = JObj qs" and "field_sets cat M = Some fs" and "(k, v) \<in> set qs"
    and "k \<notin> set fs" and "\<not> namespace_qualified k"
  shows "rejected k (validate_node cat prefixes p N node)"
  using assms
proof (induction arbitrary: p rule: reaches.induct)
  case (here cat N node)
  have "rejected k (validate_node cat prefixes p N (JObj qs))"
    using here.prems(2,3,4,5) by (rule validate_node_foreign)
  then show ?case using here.prems(1) by simp
next
  case (child k' v' ps cat N fs' M M' w)
  have ih: "\<forall>p. rejected k (validate_node cat prefixes p M v')"
    using child.IH child.prems by blast
  let ?known = "filter (\<lambda>k. k \<in> set fs') (map fst ps)"
  have "k' \<in> set (map fst ps)" using child.hyps(1) by force
  then have kn: "k' \<in> set ?known" using child.hyps(3) by simp
  have "rejected k (validate_known cat prefixes p N ?known ps)"
    using kn _ child.hyps(1)
  proof (rule validate_known_rejected)
    show "(\<forall>xs. v' \<noteq> JArr xs) \<and> node_field_set cat N k' v' = Some M
                \<and> (\<forall>p. rejected k (validate_node cat prefixes p M v'))
            \<or> (\<exists>xs x. v' = JArr xs \<and> x \<in> set xs \<and> node_field_set cat N k' x = Some M
                \<and> (\<forall>p. rejected k (validate_node cat prefixes p M x)))"
      using child.hyps(4,5) ih by blast
  qed
  then show ?case
    using child.hyps(1,2,3) by (intro validate_node_known)
next
  case (element k' xs ps cat N fs' x M M' w)
  have ih: "\<forall>p. rejected k (validate_node cat prefixes p M x)"
    using element.IH element.prems by blast
  let ?known = "filter (\<lambda>k. k \<in> set fs') (map fst ps)"
  have "k' \<in> set (map fst ps)" using element.hyps(1) by force
  then have kn: "k' \<in> set ?known" using element.hyps(3) by simp
  have "rejected k (validate_known cat prefixes p N ?known ps)"
    using kn _ element.hyps(1)
  proof (rule validate_known_rejected)
    show "(\<forall>ys. JArr xs \<noteq> JArr ys) \<and> node_field_set cat N k' (JArr xs) = Some M
                \<and> (\<forall>p. rejected k (validate_node cat prefixes p M (JArr xs)))
            \<or> (\<exists>ys y. JArr xs = JArr ys \<and> y \<in> set ys \<and> node_field_set cat N k' y = Some M
                \<and> (\<forall>p. rejected k (validate_node cat prefixes p M y)))"
      using element.hyps(4,5) ih by blast
  qed
  then show ?case
    using element.hyps(1,2,3) by (intro validate_node_known)
qed

section \<open>The constructor of TransactionEvent\<close>

text \<open>The identities that the constructors give are distinct.\<close>

lemma entity_id_distinct: "entity_id n j = entity_id m k \<longleftrightarrow> n = m \<and> j = k"
  by (simp add: entity_id_def)

text \<open>
  The constructor on a raw transaction event. The lists that \<open>super\<close> copied are
  deleted and added again element by element, so they come after the other keys, and
  the empty \<open>quantityList\<close> is not created again; \<open>readPoint\<close> keeps its place, and
  the business transaction and the read point are entities of their own.
\<close>

lemma new_TransactionEvent_example:
  "objectToEvent 3 (JObj [(''isA'', JStr ''TransactionEvent''),
          (''epcList'', JArr [JStr ''urn:a'', JStr ''urn:b'']),
          (''action'', JStr ''ADD''),
          (''bizTransactionList'',
             JArr [JObj [(''type'', JStr ''po''), (''bizTransaction'', JStr ''x'')]]),
          (''readPoint'', JObj [(''id'', JStr ''rp'')]),
          (''quantityList'', JArr [])])
   = Inr (JEnt (entity_id 3 0)
       [(''isA'', JStr ''TransactionEvent''),
        (''action'', JStr ''ADD''),
        (''readPoint'', JEnt (entity_id 3 2) [(''id'', JStr ''rp'')]),
        (''epcList'', JArr [JStr ''urn:a'', JStr ''urn:b'']),
        (''bizTransactionList'',
           JArr [JEnt (entity_id 3 1) [(''type'', JStr ''po''), (''bizTransaction'', JStr ''x'')]])])"
  by (simp add: objectToEvent_def discriminator_def get_prop_def new_TransactionEvent_def
      Entity_new_def Let_def clearBizTransactionList_def clearEPCList_def clearQuantityList_def
      clearSourceList_def clearDestinationList_def clearSensorElementList_def delete_prop_def
      transaction_entry_def addEPC_def addBizTransaction_def add_to_list_def
      new_value_object_def setReadPoint_def entity_id_def)

text \<open>
  With no argument the instance has its \<open>isA\<close> only; a list field that is not an array
  makes the constructor throw.
\<close>

lemma new_TransactionEvent_edge_cases:
  "new_TransactionEvent 3 None = Inr (JEnt (entity_id 3 0) [(''isA'', JStr ''TransactionEvent'')])
   \<and> new_TransactionEvent 3 (Some [(''epcList'', JStr ''abc'')]) = Inl TypeError"
  by (simp add: new_TransactionEvent_def Entity_new_def Let_def clearBizTransactionList_def
      clearEPCList_def clearQuantityList_def clearSourceList_def clearDestinationList_def
      clearSensorElementList_def delete_prop_def transaction_entry_def)

section \<open>The event list is kept apart\<close>

text \<open>
  The own properties of a constructed document never include \<open>eventList\<close>, which is
  kept apart. A document built with no argument has five own properties, and neither
  \<open>event\<close> nor \<open>epcisBody\<close> among them; the accessors of the event list leave the own
  properties as they are.
\<close>

lemma fresh_document_own:
  "new_EPCISDocument st now eo ho oid None =
     Inr \<lparr>own = [(''isA'', JStr ''EPCISDocument''),
                 (''useEventListByDefault'', useEventListByDefault st),
                 (''@context'', EPCISDocumentContext st),
                 (''schemaVersion'', EPCISDocumentSchemaVersion st),
                 (''creationDate'', JStr now)],
          eventList = None\<rparr>"
  by (simp add: new_EPCISDocument_def init_defaults_def Entity_new_def as_document_def
      delete_prop_def setIsA_def setUseEventListByDefault_def setContext_def getContext_def
      setSchemaVersion_def getSchemaVersion_def setCreationDate_def getCreationDate_def
      Let_def get_prop_def)

lemma list_accessors_keep_own:
  "own (addEvent e this) = own this
   \<and> own (addEventList es this) = own this
   \<and> own (clearEventList this) = own this
   \<and> (removeEvent e this = Inr this' \<longrightarrow> own this' = own this)"
  by (auto simp: addEvent_def addEventList_def clearEventList_def removeEvent_def
      split: option.splits)


lemma keys_fold_entry_own:
  "set (map fst (fold (entry_own ho oid) es ps)) \<subseteq> set (map fst ps) \<union> {''isA'', ''epcisHeader''}"
proof (induction es arbitrary: ps)
  case Nil
  show ?case by auto
next
  case (Cons e es)
  have "set (map fst (entry_own ho oid e ps)) \<subseteq> set (map fst ps) \<union> {''isA'', ''epcisHeader''}"
    by (auto simp: entry_own_def keys_set_prop simp del: set_map)
  moreover have "set (map fst (fold (entry_own ho oid) es (entry_own ho oid e ps)))
      \<subseteq> set (map fst (entry_own ho oid e ps)) \<union> {''isA'', ''epcisHeader''}"
    by (rule Cons.IH)
  moreover have "fold (entry_own ho oid) (e # es) ps
      = fold (entry_own ho oid) es (entry_own ho oid e ps)"
    by simp
  ultimately show ?case by (simp only:) blast
qed

lemma init_defaults_no_eventList:
  "''eventList'' \<notin> set (map fst (own (init_defaults st now raw)))"
  by (simp add: init_defaults_def as_document_def setIsA_def setUseEventListByDefault_def
      setContext_def setSchemaVersion_def setCreationDate_def Let_def keys_set_prop
      keys_delete_prop del: set_map)

lemma constructed_own_has_no_eventList:
  assumes "new_EPCISDocument st now eo ho oid raw = Inr doc"
  shows "''eventList'' \<notin> set (map fst (own doc))"
proof (cases raw)
  case None
  then show ?thesis
    using assms init_defaults_no_eventList [of st now None]
    by (auto simp: new_EPCISDocument_None)
next
  case (Some es)
  then have "rebuild eo ho oid es (init_defaults st now (Some es)) = Inr doc"
    using assms by (simp add: new_EPCISDocument_Some)
  then have "own doc = fold (entry_own ho oid) es (own (init_defaults st now (Some es)))"
    by (rule rebuild_own)
  then show ?thesis
    using keys_fold_entry_own [of ho oid es "own (init_defaults st now (Some es))"]
      init_defaults_no_eventList [of st now "Some es"]
    by (simp only:) blast
qed

section \<open>Body selection in toObject\<close>

text \<open>
  C1 (as amended). For a document with no own property named \<open>event\<close>: when the
  \<open>eventList\<close> property exists and holds entities, \<open>toObject\<close> returns an output whose
  \<open>epcisBody\<close> is \<open>{event: ...}\<close> exactly when the toggle is falsy and the list has
  fewer than two elements (the serialization of the single event, or the empty
  object for an empty list), and \<open>{eventList: [...]}\<close> with every event serialized in
  every other case. When the \<open>eventList\<close> property does not exist, \<open>toObject\<close> generates
  no body at all with a truthy toggle (the output is the generic serialization of the
  other properties) and throws a \<open>TypeError\<close> with a falsy one.
\<close>

theorem toObject_body_shape:
  assumes noev: "''event'' \<notin> set (map fst (own this))"
  shows "(\<forall>evs. getEventList this = Some evs \<and> (\<forall>e\<in>set evs. is_entity e) \<longrightarrow>
            (\<exists>out. toObject this = Inr out \<and>
               get_prop out ''epcisBody'' =
                 (if \<not> truthy (getUseEventListByDefault this) \<and> length evs < 2
                  then JObj [(''event'', case evs of [] \<Rightarrow> JObj [] | e # rest \<Rightarrow> field_out e)]
                  else JObj [(''eventList'', JArr (elems_out evs))])))
       \<and> (getEventList this = None \<longrightarrow>
            toObject this =
              (if truthy (getUseEventListByDefault this)
               then Inr (delete_prop ''useEventListByDefault'' (Entity_toObject (own this)))
               else Inl TypeError))"
proof (intro conjI allI impI)
  fix evs
  assume h: "getEventList this = Some evs \<and> (\<forall>e\<in>set evs. is_entity e)"
  let ?output = "delete_prop ''useEventListByDefault'' (Entity_toObject (own this))"
  have ne: "''event'' \<notin> set (map fst ?output)"
    using noev by (rule output_no_event)
  show "\<exists>out. toObject this = Inr out \<and>
               get_prop out ''epcisBody'' =
                 (if \<not> truthy (getUseEventListByDefault this) \<and> length evs < 2
                  then JObj [(''event'', case evs of [] \<Rightarrow> JObj [] | e # rest \<Rightarrow> field_out e)]
                  else JObj [(''eventList'', JArr (elems_out evs))])"
  proof (cases "\<not> truthy (getUseEventListByDefault this) \<and> length evs < 2")
    case True
    show ?thesis
    proof (cases evs)
      case Nil
      then show ?thesis using True h
        by (simp add: toObject_def getUseEventListByDefault_def getEventList_def
            wrap_body_event get_prop_set_prop)
    next
      case (Cons e rest)
      then have "is_entity e" using h by simp
      then show ?thesis using True h Cons
        by (simp add: toObject_def getUseEventListByDefault_def getEventList_def
            call_toObject_entity truthy_entity_out wrap_body_event get_prop_set_prop)
    qed
  next
    case False
    then have "toObject this = Inr (wrap_body ?output (Some (elems_out evs)))"
      using h by (auto simp: toObject_def getUseEventListByDefault_def getEventList_def Let_def)
    then show ?thesis using False ne
      by (simp add: wrap_body_no_event get_prop_set_prop)
  qed
next
  assume h: "getEventList this = None"
  let ?output = "delete_prop ''useEventListByDefault'' (Entity_toObject (own this))"
  have ne: "''event'' \<notin> set (map fst ?output)"
    using noev by (rule output_no_event)
  show "toObject this =
              (if truthy (getUseEventListByDefault this)
               then Inr (delete_prop ''useEventListByDefault'' (Entity_toObject (own this)))
               else Inl TypeError)"
    using h ne
    by (simp add: toObject_def getUseEventListByDefault_def getEventList_def wrap_body_no_event)
qed

text \<open>
  The theorem at a document with the toggle off and one event, and at the same
  document after a second event is added.
\<close>

theorem toObject_body_shape_witness:
  "''event'' \<notin> set (map fst [(''isA'', JStr ''EPCISDocument''),
                             (''useEventListByDefault'', JBool False)])
   \<and> toObject \<lparr>own = [(''isA'', JStr ''EPCISDocument''), (''useEventListByDefault'', JBool False)],
               eventList = Some [JEnt 1 [(''isA'', JStr ''ObjectEvent'')]]\<rparr>
     = Inr [(''isA'', JStr ''EPCISDocument''),
            (''epcisBody'', JObj [(''event'', JObj [(''isA'', JStr ''ObjectEvent'')])])]
   \<and> toObject \<lparr>own = [(''isA'', JStr ''EPCISDocument''), (''useEventListByDefault'', JBool False)],
               eventList = Some [JEnt 1 [(''isA'', JStr ''ObjectEvent'')],
                                 JEnt 2 [(''isA'', JStr ''ObjectEvent'')]]\<rparr>
     = Inr [(''isA'', JStr ''EPCISDocument''),
            (''epcisBody'', JObj [(''eventList'',
               JArr [JObj [(''isA'', JStr ''ObjectEvent'')],
                     JObj [(''isA'', JStr ''ObjectEvent'')]])])]"
  using toObject_body_shape
    [of "\<lparr>own = [(''isA'', JStr ''EPCISDocument''), (''useEventListByDefault'', JBool False)],
          eventList = Some [JEnt 1 [(''isA'', JStr ''ObjectEvent'')]]\<rparr>"]
  by (simp add: toObject_def wrap_body_def delete_prop_def get_prop_def)

text \<open>
  C1 as stated fails. A document to which no event was added, with the toggle on (the
  default), serializes with no \<open>epcisBody\<close> at all, where the claim has \<open>eventList\<close>
  emitted whenever the toggle is on; and with the toggle off an empty list is emitted
  as \<open>event\<close>, a count different from 1.
\<close>

theorem toObject_body_counterexample:
  "toObject \<lparr>own = [(''isA'', JStr ''EPCISDocument''), (''useEventListByDefault'', JBool True),
                    (''schemaVersion'', JNum 2)],
             eventList = None\<rparr>
     = Inr [(''isA'', JStr ''EPCISDocument''), (''schemaVersion'', JNum 2)]
   \<and> toObject \<lparr>own = [(''isA'', JStr ''EPCISDocument''), (''useEventListByDefault'', JBool False)],
               eventList = Some []\<rparr>
     = Inr [(''isA'', JStr ''EPCISDocument''), (''epcisBody'', JObj [(''event'', JObj [])])]"
  by (simp add: toObject_def wrap_body_def delete_prop_def get_prop_def)

section \<open>Removing from a list field\<close>

text \<open>
  C3 (as amended). On an entity whose list exists, \<open>removeEPC\<close> and \<open>removeEvent\<close> keep
  exactly the elements that are not identical (\<open>===\<close>) to the argument, in their
  order: every element identical to it is dropped, not only the first, and an entity
  that is structurally equal to the argument but another object stays. When no
  element is identical the entity is unchanged and nothing is thrown.
\<close>

theorem remove_drops_every_identical_element:
  "(getEPCList this = JArr epcs \<longrightarrow>
      (\<exists>this'. removeEPC epc this = Inr this'
         \<and> getEPCList this' = JArr (filter (\<lambda>elem. \<not> strict_equal elem epc) epcs)
         \<and> ((\<forall>elem\<in>set epcs. \<not> strict_equal elem epc) \<longrightarrow> this' = this)))
   \<and> (getEventList doc = Some evs \<longrightarrow>
      (\<exists>doc'. removeEvent event doc = Inr doc'
         \<and> getEventList doc' = Some (filter (\<lambda>elem. \<not> strict_equal elem event) evs)
         \<and> own doc' = own doc
         \<and> ((\<forall>elem\<in>set evs. \<not> strict_equal elem event) \<longrightarrow> doc' = doc)))"
proof (intro conjI impI)
  assume h: "getEPCList this = JArr epcs"
  then have m: "map_of this ''epcList'' = Some (JArr epcs)"
    by (simp add: getEPCList_def get_prop_JArr_map_of)
  let ?kept = "filter (\<lambda>elem. \<not> strict_equal elem epc) epcs"
  have r: "removeEPC epc this = Inr (set_prop ''epcList'' (JArr ?kept) this)"
    using h by (simp add: removeEPC_def getEPCList_def)
  have g: "getEPCList (set_prop ''epcList'' (JArr ?kept) this) = JArr ?kept"
    by (simp add: getEPCList_def get_prop_set_prop)
  have n: "(\<forall>elem\<in>set epcs. \<not> strict_equal elem epc) \<longrightarrow>
             set_prop ''epcList'' (JArr ?kept) this = this"
  proof
    assume "\<forall>elem\<in>set epcs. \<not> strict_equal elem epc"
    then have "?kept = epcs" by simp
    then show "set_prop ''epcList'' (JArr ?kept) this = this"
      using m by (simp add: set_prop_same)
  qed
  show "\<exists>this'. removeEPC epc this = Inr this'
         \<and> getEPCList this' = JArr ?kept
         \<and> ((\<forall>elem\<in>set epcs. \<not> strict_equal elem epc) \<longrightarrow> this' = this)"
    using r g n by blast
next
  assume h: "getEventList doc = Some evs"
  let ?kept = "filter (\<lambda>elem. \<not> strict_equal elem event) evs"
  have r: "removeEvent event doc = Inr (doc\<lparr>eventList := Some ?kept\<rparr>)"
    using h by (simp add: removeEvent_def getEventList_def)
  have n: "(\<forall>elem\<in>set evs. \<not> strict_equal elem event) \<longrightarrow> doc\<lparr>eventList := Some ?kept\<rparr> = doc"
  proof
    assume "\<forall>elem\<in>set evs. \<not> strict_equal elem event"
    then have "?kept = evs" by simp
    then show "doc\<lparr>eventList := Some ?kept\<rparr> = doc"
      using h by (simp add: getEventList_def)
  qed
  show "\<exists>doc'. removeEvent event doc = Inr doc'
         \<and> getEventList doc' = Some ?kept
         \<and> own doc' = own doc
         \<and> ((\<forall>elem\<in>set evs. \<not> strict_equal elem event) \<longrightarrow> doc' = doc)"
    using r n by (simp add: getEventList_def)
qed

theorem remove_drops_every_identical_element_witness:
  "getEPCList [(''epcList'', JArr [JStr ''a'', JStr ''b'', JStr ''a''])]
      = JArr [JStr ''a'', JStr ''b'', JStr ''a'']
   \<and> removeEPC (JStr ''a'') [(''epcList'', JArr [JStr ''a'', JStr ''b'', JStr ''a''])]
      = Inr [(''epcList'', JArr [JStr ''b''])]
   \<and> getEventList \<lparr>own = [], eventList = Some [JEnt 1 [], JEnt 2 [], JEnt 1 []]\<rparr>
      = Some [JEnt 1 [], JEnt 2 [], JEnt 1 []]
   \<and> removeEvent (JEnt 1 []) \<lparr>own = [], eventList = Some [JEnt 1 [], JEnt 2 [], JEnt 1 []]\<rparr>
      = Inr \<lparr>own = [], eventList = Some [JEnt 2 []]\<rparr>"
  using remove_drops_every_identical_element
    [of "[(''epcList'', JArr [JStr ''a'', JStr ''b'', JStr ''a''])]"
      "[JStr ''a'', JStr ''b'', JStr ''a'']" "JStr ''a''"
      "\<lparr>own = [], eventList = Some [JEnt 1 [], JEnt 2 [], JEnt 1 []]\<rparr>"
      "[JEnt 1 [], JEnt 2 [], JEnt 1 []]" "JEnt 1 []"]
  by (simp add: getEPCList_def getEventList_def removeEPC_def removeEvent_def)

text \<open>
  C3 as stated fails. \<open>removeEPC\<close> of an EPC that occurs twice removes both
  occurrences, where the claim keeps the second; and \<open>removeEvent\<close> of an event
  structurally equal to the one in the list, but another object, removes nothing,
  where the claim drops it.
\<close>

theorem remove_first_only_counterexample:
  "removeEPC (JStr ''urn:epc:id:sgtin:1'')
     [(''isA'', JStr ''TransactionEvent''),
      (''epcList'', JArr [JStr ''urn:epc:id:sgtin:1'', JStr ''urn:epc:id:sgtin:2'',
                          JStr ''urn:epc:id:sgtin:1''])]
   = Inr [(''isA'', JStr ''TransactionEvent''),
          (''epcList'', JArr [JStr ''urn:epc:id:sgtin:2''])]
   \<and> removeEvent (JEnt 3 [(''isA'', JStr ''ObjectEvent'')])
        \<lparr>own = [], eventList = Some [JEnt 1 [(''isA'', JStr ''ObjectEvent'')]]\<rparr>
     = Inr \<lparr>own = [], eventList = Some [JEnt 1 [(''isA'', JStr ''ObjectEvent'')]]\<rparr>"
  by (simp add: removeEPC_def removeEvent_def get_prop_def)

section \<open>Clearing a list field\<close>




section \<open>Serializing a document with no event list\<close>

text \<open>
  C9. With a falsy toggle, \<open>toObject\<close> on a document whose \<open>eventList\<close> property does
  not exist throws a \<open>TypeError\<close>; this is the state \<open>new EPCISDocument()\<close> leaves when
  the setting is falsy. The empty-structure output \<open>{event: {}}\<close> is what the list that
  exists and is empty gives, and an output is returned only when the list exists.
\<close>

theorem toObject_without_eventList_throws:
  "(\<not> truthy (getUseEventListByDefault this) \<and> getEventList this = None \<longrightarrow>
      toObject this = Inl TypeError)
   \<and> (\<not> truthy (getUseEventListByDefault this) \<and> getEventList this = Some [] \<longrightarrow>
        (\<exists>out. toObject this = Inr out
            \<and> get_prop out ''epcisBody'' = JObj [(''event'', JObj [])]))
   \<and> (\<forall>out. \<not> truthy (getUseEventListByDefault this) \<and> toObject this = Inr out \<longrightarrow>
        getEventList this \<noteq> None)
   \<and> (\<not> truthy (useEventListByDefault st) \<longrightarrow>
        (\<exists>doc. new_EPCISDocument st now event_of header_of oid None = Inr doc
            \<and> getEventList doc = None \<and> toObject doc = Inl TypeError))"
proof -
  have a: "\<not> truthy (getUseEventListByDefault this) \<and> getEventList this = None \<longrightarrow>
      toObject this = Inl TypeError"
    by (simp add: toObject_def getUseEventListByDefault_def getEventList_def)
  have b: "\<not> truthy (getUseEventListByDefault this) \<and> getEventList this = Some [] \<longrightarrow>
        (\<exists>out. toObject this = Inr out
            \<and> get_prop out ''epcisBody'' = JObj [(''event'', JObj [])])"
    by (simp add: toObject_def getUseEventListByDefault_def getEventList_def
        wrap_body_event get_prop_set_prop)
  have c: "\<forall>out. \<not> truthy (getUseEventListByDefault this) \<and> toObject this = Inr out \<longrightarrow>
        getEventList this \<noteq> None"
    using a by (cases "getEventList this") auto
  have d: "\<not> truthy (useEventListByDefault st) \<longrightarrow>
        (\<exists>doc. new_EPCISDocument st now event_of header_of oid None = Inr doc
            \<and> getEventList doc = None \<and> toObject doc = Inl TypeError)"
    using init_defaults_None [of st now]
    by (simp add: new_EPCISDocument_def toObject_def getUseEventListByDefault_def
        getEventList_def)
  show ?thesis using a b c d by blast
qed

text \<open>
  The theorem at a document built with no argument under settings whose toggle is off,
  and at the same document after its only event is removed again.
\<close>

theorem toObject_without_eventList_throws_witness:
  "\<not> truthy (JBool False)
   \<and> toObject \<lparr>own = [(''isA'', JStr ''EPCISDocument''), (''useEventListByDefault'', JBool False)],
               eventList = None\<rparr> = Inl TypeError
   \<and> toObject \<lparr>own = [(''isA'', JStr ''EPCISDocument''), (''useEventListByDefault'', JBool False)],
               eventList = Some []\<rparr>
     = Inr [(''isA'', JStr ''EPCISDocument''), (''epcisBody'', JObj [(''event'', JObj [])])]
   \<and> new_EPCISDocument
        \<lparr>useEventListByDefault = JBool False,
         EPCISDocumentContext = JStr ''https://id.gs1.org/epcis-context.jsonld'',
         EPCISDocumentSchemaVersion = JNum 2\<rparr>
        ''2005-07-11T11:30:47.000Z'' objectToEvent new_EPCISHeader 0 None
     = Inr \<lparr>own = [(''isA'', JStr ''EPCISDocument''), (''useEventListByDefault'', JBool False),
                   (''@context'', JStr ''https://id.gs1.org/epcis-context.jsonld''),
                   (''schemaVersion'', JNum 2),
                   (''creationDate'', JStr ''2005-07-11T11:30:47.000Z'')],
            eventList = None\<rparr>"
  using toObject_without_eventList_throws
    [of "\<lparr>own = [(''isA'', JStr ''EPCISDocument''), (''useEventListByDefault'', JBool False)],
          eventList = None\<rparr>"
        "\<lparr>useEventListByDefault = JBool False,
          EPCISDocumentContext = JStr ''https://id.gs1.org/epcis-context.jsonld'',
          EPCISDocumentSchemaVersion = JNum 2\<rparr>"
        "''2005-07-11T11:30:47.000Z''" objectToEvent new_EPCISHeader 0]
  by (simp add: toObject_def wrap_body_def delete_prop_def get_prop_def
      new_EPCISDocument_def init_defaults_def Entity_new_def as_document_def setIsA_def
      setUseEventListByDefault_def setContext_def getContext_def setSchemaVersion_def
      getSchemaVersion_def setCreationDate_def getCreationDate_def Let_def)

section \<open>Defaults of the constructor\<close>

text \<open>
  C4 (as amended). The constructor fills \<open>@context\<close> and \<open>schemaVersion\<close> from the
  settings, and \<open>creationDate\<close> from the clock, when the field is absent from the input
  or holds a falsy value (\<open>undefined\<close>, \<open>null\<close>, \<open>false\<close>, \<open>0\<close>, the empty string); a
  field present with a truthy value is retained in the constructed entity. The
  constructor returns an entity whenever the input has no \<open>epcisBody\<close>, and always when
  called with no argument, where all three fields take their defaults.
\<close>

theorem constructor_defaults:
  assumes d: "distinct (map fst entries)"
  shows "(\<forall>doc. new_EPCISDocument st now eo ho oid (Some entries) = Inr doc \<longrightarrow>
            getContext doc =
              (if truthy (get_prop entries ''@context'')
               then get_prop entries ''@context'' else EPCISDocumentContext st)
          \<and> getSchemaVersion doc =
              (if truthy (get_prop entries ''schemaVersion'')
               then get_prop entries ''schemaVersion'' else EPCISDocumentSchemaVersion st)
          \<and> getCreationDate doc =
              (if truthy (get_prop entries ''creationDate'')
               then get_prop entries ''creationDate'' else JStr now))
     \<and> (''epcisBody'' \<notin> set (map fst entries) \<longrightarrow>
          (\<exists>doc. new_EPCISDocument st now eo ho oid (Some entries) = Inr doc))
     \<and> (\<exists>doc. new_EPCISDocument st now eo ho oid None = Inr doc
          \<and> getContext doc = EPCISDocumentContext st
          \<and> getSchemaVersion doc = EPCISDocumentSchemaVersion st
          \<and> getCreationDate doc = JStr now)"
proof (intro conjI allI impI)
  fix doc
  assume r: "new_EPCISDocument st now eo ho oid (Some entries) = Inr doc"
  let ?d0 = "init_defaults st now (Some entries)"
  have "rebuild eo ho oid entries ?d0 = Inr doc"
    using r by (simp add: new_EPCISDocument_Some)
  then have o: "own doc = fold (entry_own ho oid) entries (own ?d0)"
    by (rule rebuild_own)
  have e: "Entity_new (Some entries) = entries"
    using d by (rule Entity_new_distinct)
  show "getContext doc =
              (if truthy (get_prop entries ''@context'')
               then get_prop entries ''@context'' else EPCISDocumentContext st)"
    using init_defaults_get(1) [of st now "Some entries"]
    by (simp add: getContext_def o fold_entry_own_get e)
  show "getSchemaVersion doc =
              (if truthy (get_prop entries ''schemaVersion'')
               then get_prop entries ''schemaVersion'' else EPCISDocumentSchemaVersion st)"
    using init_defaults_get(2) [of st now "Some entries"]
    by (simp add: getSchemaVersion_def o fold_entry_own_get e)
  show "getCreationDate doc =
              (if truthy (get_prop entries ''creationDate'')
               then get_prop entries ''creationDate'' else JStr now)"
    using init_defaults_get(3) [of st now "Some entries"]
    by (simp add: getCreationDate_def o fold_entry_own_get e)
next
  assume "''epcisBody'' \<notin> set (map fst entries)"
  then show "\<exists>doc. new_EPCISDocument st now eo ho oid (Some entries) = Inr doc"
    by (simp add: new_EPCISDocument_Some rebuild_no_body)
next
  show "\<exists>doc. new_EPCISDocument st now eo ho oid None = Inr doc
          \<and> getContext doc = EPCISDocumentContext st
          \<and> getSchemaVersion doc = EPCISDocumentSchemaVersion st
          \<and> getCreationDate doc = JStr now"
    by (simp add: new_EPCISDocument_None init_defaults_get Entity_new_def)
qed

text \<open>
  The theorem at an input where \<open>@context\<close> and \<open>schemaVersion\<close> are present and
  retained, and \<open>creationDate\<close> is the empty string and replaced.
\<close>

theorem constructor_defaults_witness:
  "distinct (map fst [(''@context'', JArr [JStr ''https://gs1.github.io/EPCIS/epcis-context.jsonld'']),
                      (''isA'', JStr ''EPCISDocument''),
                      (''schemaVersion'', JStr ''2.0''),
                      (''creationDate'', JStr [])])
   \<and> new_EPCISDocument
       \<lparr>useEventListByDefault = JBool True,
        EPCISDocumentContext = JStr ''https://id.gs1.org/epcis-context.jsonld'',
        EPCISDocumentSchemaVersion = JNum 2\<rparr>
       ''2021-01-01T00:00:00.000Z'' objectToEvent new_EPCISHeader 0
       (Some [(''@context'', JArr [JStr ''https://gs1.github.io/EPCIS/epcis-context.jsonld'']),
              (''isA'', JStr ''EPCISDocument''),
              (''schemaVersion'', JStr ''2.0''),
              (''creationDate'', JStr [])])
     = Inr \<lparr>own = [(''@context'', JArr [JStr ''https://gs1.github.io/EPCIS/epcis-context.jsonld'']),
                   (''isA'', JStr ''EPCISDocument''),
                   (''schemaVersion'', JStr ''2.0''),
                   (''creationDate'', JStr ''2021-01-01T00:00:00.000Z''),
                   (''useEventListByDefault'', JBool True)],
            eventList = None\<rparr>"
  using constructor_defaults
    [of "[(''@context'', JArr [JStr ''https://gs1.github.io/EPCIS/epcis-context.jsonld'']),
          (''isA'', JStr ''EPCISDocument''),
          (''schemaVersion'', JStr ''2.0''),
          (''creationDate'', JStr [])]"
        "\<lparr>useEventListByDefault = JBool True,
          EPCISDocumentContext = JStr ''https://id.gs1.org/epcis-context.jsonld'',
          EPCISDocumentSchemaVersion = JNum 2\<rparr>"
        "''2021-01-01T00:00:00.000Z''" objectToEvent new_EPCISHeader 0]
  by (simp add: new_EPCISDocument_def init_defaults_def Entity_new_def as_document_def
      setIsA_def setUseEventListByDefault_def setContext_def getContext_def
      setSchemaVersion_def getSchemaVersion_def setCreationDate_def getCreationDate_def
      Let_def delete_prop_def get_prop_def rebuild_entry_def)

text \<open>
  C4 as stated fails: the guards are \<open>if (!this.getSchemaVersion())\<close> and the like, so
  a field that is present in the input with the value \<open>0\<close>, \<open>null\<close> or the empty string
  is overwritten.
\<close>

theorem constructor_defaults_counterexample:
  "new_EPCISDocument
     \<lparr>useEventListByDefault = JBool True,
      EPCISDocumentContext = JStr ''https://id.gs1.org/epcis-context.jsonld'',
      EPCISDocumentSchemaVersion = JNum 2\<rparr>
     ''2021-01-01T00:00:00.000Z'' objectToEvent new_EPCISHeader 0
     (Some [(''schemaVersion'', JNum 0), (''creationDate'', JNull), (''@context'', JStr [])])
   = Inr \<lparr>own = [(''schemaVersion'', JNum 2),
                 (''creationDate'', JStr ''2021-01-01T00:00:00.000Z''),
                 (''@context'', JStr ''https://id.gs1.org/epcis-context.jsonld''),
                 (''isA'', JStr ''EPCISDocument''),
                 (''useEventListByDefault'', JBool True)],
          eventList = None\<rparr>"
  by (simp add: new_EPCISDocument_def init_defaults_def Entity_new_def as_document_def
      setIsA_def setUseEventListByDefault_def setContext_def getContext_def
      setSchemaVersion_def getSchemaVersion_def setCreationDate_def getCreationDate_def
      Let_def delete_prop_def get_prop_def rebuild_entry_def)

section \<open>A body with both an event and an event list\<close>

text \<open>
  C10. For a raw document with no top-level \<open>eventList\<close> key whose \<open>epcisBody\<close> has a
  truthy \<open>event\<close> field (every event object is truthy), the constructor rebuilds that
  event alone, whatever else the body holds, an \<open>eventList\<close> included: it throws what
  \<open>objectToEvent\<close> throws on the event, and otherwise returns a document whose event
  list is exactly that one event.
\<close>

theorem constructor_singular_event_wins:
  assumes d: "distinct (map fst entries)"
    and nl: "''eventList'' \<notin> set (map fst entries)"
    and b: "map_of entries ''epcisBody'' = Some (JObj body)"
    and t: "truthy (get_prop body ''event'')"
  shows "(\<forall>err. eo (oid + 1) (get_prop body ''event'') = Inl err \<longrightarrow>
            new_EPCISDocument st now eo ho oid (Some entries) = Inl err)
     \<and> (\<forall>e. eo (oid + 1) (get_prop body ''event'') = Inr e \<longrightarrow>
            (\<exists>doc. new_EPCISDocument st now eo ho oid (Some entries) = Inr doc
               \<and> getEventList doc = Some [e]))"
proof -
  let ?d0 = "init_defaults st now (Some entries)"
  have e: "Entity_new (Some entries) = entries"
    using d by (rule Entity_new_distinct)
  have l: "eventList ?d0 = None"
    using nl by (simp add: init_defaults_eventList e get_prop_absent del: set_map)
  have i: "event_id oid ?d0 = oid + 1"
    by (simp add: event_id_def l)
  have s: "rebuild_entry eo ho oid ''epcisBody'' (JObj body) ?d0 =
             (case eo (oid + 1) (get_prop body ''event'') of
                Inl err \<Rightarrow> Inl err
              | Inr e \<Rightarrow> Inr (addEvent e ?d0))"
    using t by (simp add: rebuild_entry_def i)
  have r: "new_EPCISDocument st now eo ho oid (Some entries) =
     map_sum id (\<lambda>d1. \<lparr>own = fold (entry_own ho oid) entries (own ?d0), eventList = eventList d1\<rparr>)
       (rebuild_entry eo ho oid ''epcisBody'' (JObj body) ?d0)"
    by (simp only: new_EPCISDocument_Some rebuild_body [OF d b])
  show ?thesis
    by (auto simp: r s addEvent_def l getEventList_def)
qed

text \<open>
  The theorem at a body with an event and a list of two more events.
\<close>

theorem constructor_singular_event_wins_witness:
  "distinct (map fst [(''isA'', JStr ''EPCISDocument''),
      (''epcisBody'', JObj [(''event'', JObj [(''type'', JStr ''ObjectEvent''), (''action'', JStr ''ADD'')]),
                           (''eventList'', JArr [JObj [(''type'', JStr ''AggregationEvent'')],
                                                 JObj [(''type'', JStr ''AssociationEvent'')]])])])
   \<and> ''eventList'' \<notin> set (map fst [(''isA'', JStr ''EPCISDocument''),
      (''epcisBody'', JObj [(''event'', JObj [(''type'', JStr ''ObjectEvent''), (''action'', JStr ''ADD'')]),
                           (''eventList'', JArr [JObj [(''type'', JStr ''AggregationEvent'')],
                                                 JObj [(''type'', JStr ''AssociationEvent'')]])])])
   \<and> truthy (JObj [(''type'', JStr ''ObjectEvent''), (''action'', JStr ''ADD'')])
   \<and> new_EPCISDocument
        \<lparr>useEventListByDefault = JBool True,
         EPCISDocumentContext = JStr ''https://id.gs1.org/epcis-context.jsonld'',
         EPCISDocumentSchemaVersion = JNum 2\<rparr>
        ''2021-01-01T00:00:00.000Z'' objectToEvent new_EPCISHeader 0
        (Some [(''isA'', JStr ''EPCISDocument''),
      (''epcisBody'', JObj [(''event'', JObj [(''type'', JStr ''ObjectEvent''), (''action'', JStr ''ADD'')]),
                           (''eventList'', JArr [JObj [(''type'', JStr ''AggregationEvent'')],
                                                 JObj [(''type'', JStr ''AssociationEvent'')]])])])
     = Inr \<lparr>own = [(''isA'', JStr ''EPCISDocument''),
          (''epcisBody'', JObj [(''event'', JObj [(''type'', JStr ''ObjectEvent''), (''action'', JStr ''ADD'')]),
                               (''eventList'', JArr [JObj [(''type'', JStr ''AggregationEvent'')],
                                                 JObj [(''type'', JStr ''AssociationEvent'')]])]),
          (''useEventListByDefault'', JBool True),
          (''@context'', JStr ''https://id.gs1.org/epcis-context.jsonld''),
          (''schemaVersion'', JNum 2),
          (''creationDate'', JStr ''2021-01-01T00:00:00.000Z'')],
        eventList = Some [JEnt (entity_id 1 0) [(''type'', JStr ''ObjectEvent''), (''action'', JStr ''ADD'')]]\<rparr>"
  using constructor_singular_event_wins
    [of "[(''isA'', JStr ''EPCISDocument''),
      (''epcisBody'', JObj [(''event'', JObj [(''type'', JStr ''ObjectEvent''), (''action'', JStr ''ADD'')]),
                           (''eventList'', JArr [JObj [(''type'', JStr ''AggregationEvent'')],
                                                 JObj [(''type'', JStr ''AssociationEvent'')]])])]"
        "[(''event'', JObj [(''type'', JStr ''ObjectEvent''), (''action'', JStr ''ADD'')]),
          (''eventList'', JArr [JObj [(''type'', JStr ''AggregationEvent'')],
                                                 JObj [(''type'', JStr ''AssociationEvent'')]])]"
        objectToEvent 0
        "\<lparr>useEventListByDefault = JBool True,
         EPCISDocumentContext = JStr ''https://id.gs1.org/epcis-context.jsonld'',
         EPCISDocumentSchemaVersion = JNum 2\<rparr>"
        "''2021-01-01T00:00:00.000Z''" new_EPCISHeader]
  by (simp add: new_EPCISDocument_def init_defaults_def Entity_new_def as_document_def
      setIsA_def setUseEventListByDefault_def setContext_def getContext_def
      setSchemaVersion_def getSchemaVersion_def setCreationDate_def getCreationDate_def
      Let_def delete_prop_def get_prop_def rebuild_entry_def event_id_def addEvent_def
      getEventList_def objectToEvent_def discriminator_def event_types_def)

text \<open>
  C10 as stated fails when the \<open>event\<close> field of the body is there but
  falsy: the guard of the constructor is \<open>if (value.event)\<close>, so with \<open>event: null\<close>
  the constructor goes on to the \<open>eventList\<close> and rebuilds each of its elements. The
  document then holds two events, none of them dropped.
\<close>

theorem constructor_falsy_event_counterexample:
  "new_EPCISDocument
        \<lparr>useEventListByDefault = JBool True,
         EPCISDocumentContext = JStr ''https://id.gs1.org/epcis-context.jsonld'',
         EPCISDocumentSchemaVersion = JNum 2\<rparr>
        ''2021-01-01T00:00:00.000Z'' objectToEvent new_EPCISHeader 0
        (Some [(''isA'', JStr ''EPCISDocument''),
      (''epcisBody'', JObj [(''event'', JNull),
                           (''eventList'', JArr [JObj [(''type'', JStr ''AggregationEvent'')],
                                                 JObj [(''type'', JStr ''AssociationEvent'')]])])])
     = Inr \<lparr>own = [(''isA'', JStr ''EPCISDocument''),
          (''epcisBody'', JObj [(''event'', JNull),
                               (''eventList'', JArr [JObj [(''type'', JStr ''AggregationEvent'')],
                                                 JObj [(''type'', JStr ''AssociationEvent'')]])]),
          (''useEventListByDefault'', JBool True),
          (''@context'', JStr ''https://id.gs1.org/epcis-context.jsonld''),
          (''schemaVersion'', JNum 2),
          (''creationDate'', JStr ''2021-01-01T00:00:00.000Z'')],
        eventList = Some [JEnt (entity_id 1 0) [(''type'', JStr ''AggregationEvent'')],
                          JEnt (entity_id 2 0) [(''type'', JStr ''AssociationEvent'')]]\<rparr>"
  by (simp add: new_EPCISDocument_def init_defaults_def Entity_new_def as_document_def
      setIsA_def setUseEventListByDefault_def setContext_def getContext_def
      setSchemaVersion_def getSchemaVersion_def setCreationDate_def getCreationDate_def
      Let_def delete_prop_def get_prop_def rebuild_entry_def event_id_def addEvent_def
      getEventList_def objectToEvent_def discriminator_def event_types_def entity_id_def)

section \<open>Round trip of a document\<close>

text \<open>
  C2 (as amended). Let \<open>V\<close> be a raw document with distinct keys and plain values that
  has an \<open>isA\<close> key, truthy \<open>@context\<close>, \<open>schemaVersion\<close> and \<open>creationDate\<close>, no
  top-level key named \<open>eventList\<close>, \<open>event\<close> or \<open>useEventListByDefault\<close>, and a header
  that serializes back to itself. If its body has the shape that \<open>toObject\<close> emits
  under the current toggle (no events at all, or an \<open>eventList\<close> body, when the toggle
  is truthy; an \<open>eventList\<close> body of at least two events, or an \<open>event\<close> body, when it
  is falsy) and each of its events serializes back to itself after \<open>objectToEvent\<close>,
  then constructing a document from \<open>V\<close> and serializing it returns \<open>V\<close>, key for key
  and in the same order, extension fields included.
\<close>

theorem round_trip_when_body_matches_toggle:
  fixes V :: props
  assumes d: "distinct (map fst V)"
    and i: "''isA'' \<in> set (map fst V)"
    and r: "''eventList'' \<notin> set (map fst V)" "''useEventListByDefault'' \<notin> set (map fst V)"
      "''event'' \<notin> set (map fst V)"
    and t: "truthy (get_prop V ''@context'')" "truthy (get_prop V ''schemaVersion'')"
      "truthy (get_prop V ''creationDate'')"
    and p: "\<forall>e\<in>set V. fst e \<noteq> ''epcisHeader'' \<longrightarrow> plain (snd e)"
    and h: "\<forall>v. map_of V ''epcisHeader'' = Some v \<longrightarrow> field_out (ho oid v) = v"
    and b: "(''epcisBody'' \<notin> set (map fst V) \<and> truthy (useEventListByDefault st))
      \<or> (\<exists>body. map_of V ''epcisBody'' = Some (JObj body)
            \<and> \<not> truthy (get_prop body ''event'') \<and> \<not> truthy (get_prop body ''eventList'')
            \<and> truthy (useEventListByDefault st))
      \<or> (\<exists>xs. map_of V ''epcisBody'' = Some (JObj [(''eventList'', JArr xs)])
            \<and> (truthy (useEventListByDefault st) \<or> 2 \<le> length xs)
            \<and> (\<forall>n. \<forall>x\<in>set xs. event_round_trips (eo n) x))
      \<or> (\<exists>ev. map_of V ''epcisBody'' = Some (JObj [(''event'', ev)])
            \<and> \<not> truthy (useEventListByDefault st) \<and> truthy ev
            \<and> event_round_trips (eo (oid + 1)) ev)"
  shows "round_trip st now eo ho oid V = Inr V"
proof -
  let ?own0 = "set_prop ''isA'' (JStr ''EPCISDocument'') V
                 @ [(''useEventListByDefault'', useEventListByDefault st)]"
  let ?d0 = "\<lparr>own = ?own0, eventList = None\<rparr>"
  let ?F = "fold (entry_own ho oid) V ?own0"
  have i0: "init_defaults st now (Some V) = ?d0"
    using d r(1,2) t by (rule init_own)
  have out: "delete_prop ''useEventListByDefault'' (Entity_toObject ?F) = V"
    using d i r(2) p h by (rule round_trip_own(1))
  have tg: "get_prop ?F ''useEventListByDefault'' = useEventListByDefault st"
    using d i r(2) p h by (rule round_trip_own(2))
  note tr = toObject_round [OF out r(3)]
  have new: "new_EPCISDocument st now eo ho oid (Some V) = rebuild eo ho oid V ?d0"
    by (simp add: new_EPCISDocument_Some i0)
  have id0: "event_id oid ?d0 = oid + 1" by (simp add: event_id_def)
  from b consider
      (nobody) "''epcisBody'' \<notin> set (map fst V)" "truthy (useEventListByDefault st)"
    | (noevents) body where "map_of V ''epcisBody'' = Some (JObj body)"
        "\<not> truthy (get_prop body ''event'')" "\<not> truthy (get_prop body ''eventList'')"
        "truthy (useEventListByDefault st)"
    | (list) xs where "map_of V ''epcisBody'' = Some (JObj [(''eventList'', JArr xs)])"
        "truthy (useEventListByDefault st) \<or> 2 \<le> length xs"
        "\<forall>n. \<forall>x\<in>set xs. event_round_trips (eo n) x"
    | (single) ev where "map_of V ''epcisBody'' = Some (JObj [(''event'', ev)])"
        "\<not> truthy (useEventListByDefault st)" "truthy ev"
        "event_round_trips (eo (oid + 1)) ev"
    by blast
  then show ?thesis
  proof cases
    case nobody
    have "new_EPCISDocument st now eo ho oid (Some V) = Inr \<lparr>own = ?F, eventList = None\<rparr>"
      by (simp add: new rebuild_no_body [OF nobody(1)])
    then show ?thesis using tr(1) nobody(2) by (simp add: round_trip_def tg)
  next
    case noevents
    have "rebuild_entry eo ho oid ''epcisBody'' (JObj body) ?d0 = Inr ?d0"
      using noevents(2,3) by (simp add: rebuild_entry_def)
    then have "new_EPCISDocument st now eo ho oid (Some V) = Inr \<lparr>own = ?F, eventList = None\<rparr>"
      by (simp add: new rebuild_body [OF d noevents(1)])
    then show ?thesis using tr(1) noevents(4) by (simp add: round_trip_def tg)
  next
    case list
    from add_events_round_trip [OF list(3), of oid ?d0] obtain es where
      a0: "add_events eo oid xs ?d0 =
          Inr (?d0\<lparr>eventList :=
                 (if xs = [] then eventList ?d0
                  else Some ((case eventList ?d0 of None \<Rightarrow> [] | Some l \<Rightarrow> l) @ es))\<rparr>)"
      and o: "elems_out es = xs" and l: "length es = length xs"
      by blast
    have a: "add_events eo oid xs ?d0 =
          Inr (?d0\<lparr>eventList := (if xs = [] then None else Some es)\<rparr>)"
      using a0 by simp
    have "rebuild_entry eo ho oid ''epcisBody'' (JObj [(''eventList'', JArr xs)]) ?d0
            = add_events eo oid xs ?d0"
      by (simp add: rebuild_entry_def)
    then have n: "new_EPCISDocument st now eo ho oid (Some V)
            = Inr \<lparr>own = ?F, eventList = (if xs = [] then None else Some es)\<rparr>"
      by (simp add: new rebuild_body [OF d list(1)] a)
    show ?thesis
    proof (cases "xs = []")
      case True
      then have "truthy (useEventListByDefault st)" using list(2) by simp
      then show ?thesis using n True tr(1) by (simp add: round_trip_def tg)
    next
      case False
      have "toObject \<lparr>own = ?F, eventList = Some es\<rparr> = Inr V"
        using list(1,2) by (intro tr(2)) (simp_all add: tg o l)
      then show ?thesis using n False by (simp add: round_trip_def)
    qed
  next
    case single
    obtain e where e: "eo (oid + 1) ev = Inr e" "is_entity e" "field_out e = ev"
      using single(4) by (auto simp: event_round_trips_def split: sum.splits)
    have "rebuild_entry eo ho oid ''epcisBody'' (JObj [(''event'', ev)]) ?d0
            = Inr (addEvent e ?d0)"
      using single(3) e(1) by (simp add: rebuild_entry_def id0)
    then have n: "new_EPCISDocument st now eo ho oid (Some V)
            = Inr \<lparr>own = ?F, eventList = Some [e]\<rparr>"
      by (simp add: new rebuild_body [OF d single(1)] addEvent_def)
    have "toObject \<lparr>own = ?F, eventList = Some [e]\<rparr> = Inr V"
      using single(1,2) e(2,3) by (intro tr(3)) (simp_all add: tg)
    then show ?thesis using n by (simp add: round_trip_def)
  qed
qed

text \<open>
  The theorem at a document with a header and a list of two events, one of them with an
  extension field, under the default settings.
\<close>

theorem round_trip_when_body_matches_toggle_witness:
  "distinct (map fst
     [(''@context'', JArr [JStr ''https://gs1.github.io/EPCIS/epcis-context.jsonld'']),
      (''isA'', JStr ''EPCISDocument''),
      (''schemaVersion'', JStr ''2.0''),
      (''creationDate'', JStr ''2005-07-11T11:30:47.0Z''),
      (''epcisHeader'', JObj [(''epcisMasterData'', JObj [(''vocabularyList'', JArr [])])]),
      (''epcisBody'', JObj [(''eventList'',
         JArr [JObj [(''isA'', JStr ''ObjectEvent''), (''action'', JStr ''OBSERVE'')],
               JObj [(''isA'', JStr ''AggregationEvent''),
                     (''evt:factoryId'', JStr ''foobar'')]])])])
   \<and> truthy (JBool True)
   \<and> round_trip
        \<lparr>useEventListByDefault = JBool True,
         EPCISDocumentContext = JStr ''https://id.gs1.org/epcis-context.jsonld'',
         EPCISDocumentSchemaVersion = JNum 2\<rparr>
        ''2021-01-01T00:00:00.000Z'' objectToEvent new_EPCISHeader 0
        [(''@context'', JArr [JStr ''https://gs1.github.io/EPCIS/epcis-context.jsonld'']),
         (''isA'', JStr ''EPCISDocument''),
         (''schemaVersion'', JStr ''2.0''),
         (''creationDate'', JStr ''2005-07-11T11:30:47.0Z''),
         (''epcisHeader'', JObj [(''epcisMasterData'', JObj [(''vocabularyList'', JArr [])])]),
         (''epcisBody'', JObj [(''eventList'',
            JArr [JObj [(''isA'', JStr ''ObjectEvent''), (''action'', JStr ''OBSERVE'')],
                  JObj [(''isA'', JStr ''AggregationEvent''),
                        (''evt:factoryId'', JStr ''foobar'')]])])]
     = Inr [(''@context'', JArr [JStr ''https://gs1.github.io/EPCIS/epcis-context.jsonld'']),
            (''isA'', JStr ''EPCISDocument''),
            (''schemaVersion'', JStr ''2.0''),
            (''creationDate'', JStr ''2005-07-11T11:30:47.0Z''),
            (''epcisHeader'', JObj [(''epcisMasterData'', JObj [(''vocabularyList'', JArr [])])]),
            (''epcisBody'', JObj [(''eventList'',
               JArr [JObj [(''isA'', JStr ''ObjectEvent''), (''action'', JStr ''OBSERVE'')],
                     JObj [(''isA'', JStr ''AggregationEvent''),
                           (''evt:factoryId'', JStr ''foobar'')]])])]"
proof -
  let ?E1 = "JObj [(''isA'', JStr ''ObjectEvent''), (''action'', JStr ''OBSERVE'')]"
  let ?E2 = "JObj [(''isA'', JStr ''AggregationEvent''), (''evt:factoryId'', JStr ''foobar'')]"
  let ?H = "JObj [(''epcisMasterData'', JObj [(''vocabularyList'', JArr [])])]"
  let ?V = "[(''@context'', JArr [JStr ''https://gs1.github.io/EPCIS/epcis-context.jsonld'']),
      (''isA'', JStr ''EPCISDocument''),
      (''schemaVersion'', JStr ''2.0''),
      (''creationDate'', JStr ''2005-07-11T11:30:47.0Z''),
      (''epcisHeader'', ?H),
      (''epcisBody'', JObj [(''eventList'', JArr [?E1, ?E2])])]"
  let ?st = "\<lparr>useEventListByDefault = JBool True,
         EPCISDocumentContext = JStr ''https://id.gs1.org/epcis-context.jsonld'',
         EPCISDocumentSchemaVersion = JNum 2\<rparr>"
  have d: "distinct (map fst ?V)" by simp
  have i: "''isA'' \<in> set (map fst ?V)" by simp
  have r: "''eventList'' \<notin> set (map fst ?V)" "''useEventListByDefault'' \<notin> set (map fst ?V)"
      "''event'' \<notin> set (map fst ?V)" by simp_all
  have t: "truthy (get_prop ?V ''@context'')" "truthy (get_prop ?V ''schemaVersion'')"
      "truthy (get_prop ?V ''creationDate'')" by simp_all
  have p: "\<forall>e\<in>set ?V. fst e \<noteq> ''epcisHeader'' \<longrightarrow> plain (snd e)" by simp
  have h: "\<forall>v. map_of ?V ''epcisHeader'' = Some v \<longrightarrow> field_out (new_EPCISHeader 0 v) = v"
    by (simp add: new_EPCISHeader_def Entity_new_def)
  have e: "\<forall>n. \<forall>x\<in>set [?E1, ?E2]. event_round_trips (objectToEvent n) x"
    by (simp add: event_round_trips_def objectToEvent_def discriminator_def event_types_def
        Entity_new_def is_entity_def)
  have b: "(''epcisBody'' \<notin> set (map fst ?V) \<and> truthy (useEventListByDefault ?st))
      \<or> (\<exists>body. map_of ?V ''epcisBody'' = Some (JObj body)
            \<and> \<not> truthy (get_prop body ''event'') \<and> \<not> truthy (get_prop body ''eventList'')
            \<and> truthy (useEventListByDefault ?st))
      \<or> (\<exists>xs. map_of ?V ''epcisBody'' = Some (JObj [(''eventList'', JArr xs)])
            \<and> (truthy (useEventListByDefault ?st) \<or> 2 \<le> length xs)
            \<and> (\<forall>n. \<forall>x\<in>set xs. event_round_trips (objectToEvent n) x))
      \<or> (\<exists>ev. map_of ?V ''epcisBody'' = Some (JObj [(''event'', ev)])
            \<and> \<not> truthy (useEventListByDefault ?st) \<and> truthy ev
            \<and> event_round_trips (objectToEvent (0 + 1)) ev)"
    using e by simp
  have "round_trip ?st ''2021-01-01T00:00:00.000Z'' objectToEvent new_EPCISHeader 0 ?V = Inr ?V"
    using d i r t p h b by (rule round_trip_when_body_matches_toggle)
  then show ?thesis by simp
qed

text \<open>
  C2 as stated fails: under the default settings (toggle on) a document whose body is
  the singular \<open>event\<close>, with every defaulted field present, comes back with an
  \<open>eventList\<close> of one event instead.
\<close>

theorem round_trip_counterexample:
  "round_trip
     \<lparr>useEventListByDefault = JBool True,
      EPCISDocumentContext = JStr ''https://id.gs1.org/epcis-context.jsonld'',
      EPCISDocumentSchemaVersion = JNum 2\<rparr>
     ''2021-01-01T00:00:00.000Z'' objectToEvent new_EPCISHeader 0
     [(''@context'', JArr [JStr ''https://gs1.github.io/EPCIS/epcis-context.jsonld'']),
      (''isA'', JStr ''EPCISDocument''),
      (''schemaVersion'', JStr ''2.0''),
      (''creationDate'', JStr ''2005-07-11T11:30:47.0Z''),
      (''epcisBody'', JObj [(''event'',
         JObj [(''isA'', JStr ''ObjectEvent''), (''action'', JStr ''OBSERVE'')])])]
   = Inr [(''@context'', JArr [JStr ''https://gs1.github.io/EPCIS/epcis-context.jsonld'']),
          (''isA'', JStr ''EPCISDocument''),
          (''schemaVersion'', JStr ''2.0''),
          (''creationDate'', JStr ''2005-07-11T11:30:47.0Z''),
          (''epcisBody'', JObj [(''eventList'',
             JArr [JObj [(''isA'', JStr ''ObjectEvent''), (''action'', JStr ''OBSERVE'')]])])]"
  by (simp add: round_trip_def new_EPCISDocument_def init_defaults_def Entity_new_def
      as_document_def setIsA_def setUseEventListByDefault_def setContext_def getContext_def
      setSchemaVersion_def getSchemaVersion_def setCreationDate_def getCreationDate_def
      Let_def delete_prop_def get_prop_def rebuild_entry_def event_id_def addEvent_def
      objectToEvent_def discriminator_def event_types_def toObject_def wrap_body_def)

section \<open>Validation: unknown catalog names\<close>

text \<open>
  C7. \<open>validateAgainstSchema\<close> fails with \<open>UnknownSchemaError\<close> on every schema name that
  is not registered, and \<open>ensureFieldSet\<close> with \<open>UnknownFieldSetError\<close> on every
  field-set name that is not registered, whatever the value argument is.
\<close>

theorem unknown_catalog_name_fails:
  "(schemas cat n = None \<longrightarrow> validateAgainstSchema cat v n = Inl UnknownSchemaError)
   \<and> (field_sets cat n = None \<longrightarrow> ensureFieldSet cat v n = Inl UnknownFieldSetError)"
  by (simp add: validateAgainstSchema_def ensureFieldSet_def)

text \<open>
  The theorem at the name \<open>doesNotExist\<close> in the catalog of the examples, beside a name
  that is registered.
\<close>

theorem unknown_catalog_name_fails_witness:
  "schemas test_catalog ''doesNotExist'' = None
   \<and> validateAgainstSchema test_catalog (JObj []) ''doesNotExist'' = Inl UnknownSchemaError
   \<and> field_sets test_catalog ''doesNotExist'' = None
   \<and> ensureFieldSet test_catalog (JObj []) ''doesNotExist'' = Inl UnknownFieldSetError
   \<and> validateAgainstSchema test_catalog (JObj []) ''ObjectEvent'' = Inr []
   \<and> ensureFieldSet test_catalog (JObj [(''id'', JStr ''x''), (''evt:a'', JNull)]) ''ReadPoint''
       = Inr ([''id''], [''evt:a''])"
  using unknown_catalog_name_fails [of test_catalog "''doesNotExist''" "JObj []"]
  by (simp add: test_catalog_def event_types_def validateAgainstSchema_def ensureFieldSet_def
      own_keys_def)

section \<open>Validation: the document discriminator\<close>

text \<open>
  C6. When the discriminator of the value (its \<open>type\<close>, or its legacy \<open>isA\<close>) names no
  registered document schema, \<open>validateEpcisDocument\<close> fails with
  \<open>UnknownDocumentType\<close> in both modes, and it does so whatever the structural
  schemas, the field sets and the field-set table of the catalog are: no structural or
  extension check has a part in the result.
\<close>

theorem unresolved_discriminator_fails_first:
  assumes "\<forall>t. discriminator doc = JStr t \<longrightarrow> t \<notin> set (document_types cat)"
  shows "validateEpcisDocument cat doc = Inl UnknownDocumentType
     \<and> validateEpcisDocument_assert cat doc = Inl UnknownDocumentType
     \<and> (\<forall>s f n. validateEpcisDocument
                   (cat\<lparr>schemas := s, field_sets := f, node_field_set := n\<rparr>) doc
                 = Inl UnknownDocumentType)"
proof -
  have "document_type cat doc = None"
    using assms by (cases "discriminator doc") (simp_all add: document_type_def)
  moreover have "\<And>s f n. document_type (cat\<lparr>schemas := s, field_sets := f, node_field_set := n\<rparr>) doc
      = document_type cat doc"
    by (simp add: document_type_def split: jsval.splits)
  ultimately show ?thesis
    by (simp add: validateEpcisDocument_def validateEpcisDocument_assert_def)
qed

text \<open>The theorem at the value \<open>{foo: 'bar'}\<close> of the repository's test.\<close>

theorem unresolved_discriminator_fails_first_witness:
  "discriminator (JObj [(''foo'', JStr ''bar'')]) = JUndefined
   \<and> validateEpcisDocument test_catalog (JObj [(''foo'', JStr ''bar'')]) = Inl UnknownDocumentType
   \<and> validateEpcisDocument_assert test_catalog (JObj [(''foo'', JStr ''bar'')])
       = Inl UnknownDocumentType"
  using unresolved_discriminator_fails_first [of "JObj [(''foo'', JStr ''bar'')]" test_catalog]
  by (simp add: discriminator_def)

section \<open>Validation: nested extensions\<close>

text \<open>
  C5. Let the walk of the extension validation reach, from the root of a document whose
  type resolves, a node with field set \<open>M\<close>, at any depth (an entry of a
  \<open>sensorElementList\<close> is reached through \<open>epcisBody\<close>, the event list, the event and
  its \<open>sensorElementList\<close>). If that node has a key that is foreign to \<open>M\<close> and is not
  namespace-qualified, validation fails: the collect mode throws or returns
  \<open>success = false\<close> with an \<open>ExtensionViolation\<close> whose path ends at that key, and the
  assert mode throws.
\<close>

theorem nested_unqualified_extension_rejected:
  assumes t: "document_type cat doc = Some T"
    and r: "reaches cat T doc M (JObj entry)"
    and fs: "field_sets cat M = Some fs"
    and k: "k \<in> set (map fst entry)" "k \<notin> set fs" "\<not> namespace_qualified k"
  shows "((\<exists>err. validateEpcisDocument cat doc = Inl err)
          \<or> (\<exists>res. validateEpcisDocument cat doc = Inr res \<and> success res = False
                \<and> reports_key k (errors res)))
       \<and> (\<exists>err. validateEpcisDocument_assert cat doc = Inl err)"
proof -
  obtain v where v: "(k, v) \<in> set entry" using k(1) by auto
  have x: "rejected k (validate_node cat (context_prefixes (document_context doc)) [] T doc)"
    using r _ fs v k(2,3) by (rule reaches_rejected) simp
  have a: "(\<exists>err. validateEpcisDocument cat doc = Inl err)
          \<or> (\<exists>res. validateEpcisDocument cat doc = Inr res \<and> success res = False
                \<and> reports_key k (errors res))"
    using x
    by (auto simp: validateEpcisDocument_def t rejected_def reports_key_append Let_def
        reports_key_def split: sum.splits)
  then have "\<exists>err. validateEpcisDocument_assert cat doc = Inl err"
    by (auto simp: validateEpcisDocument_assert_def)
  then show ?thesis using a by blast
qed

text \<open>
  The theorem at the document of the repository's test: an entry of
  \<open>sensorElementList\<close> with the key \<open>furtherEventData\<close>, in a document that is
  otherwise valid. (Its context declares the prefix \<open>example\<close>.)
\<close>

theorem nested_unqualified_extension_rejected_witness:
  "document_type test_catalog
     (JObj [(''@context'', JArr [JStr ''https://gs1.github.io/EPCIS/epcis-context.jsonld'',
                                    JObj [(''example'', JStr ''http://ns.example.com/epcis/'')]]),
           (''type'', JStr ''EPCISDocument''),
           (''schemaVersion'', JStr ''2.0''),
           (''creationDate'', JStr ''2005-07-11T11:30:47.0Z''),
           (''epcisBody'', JObj [(''eventList'', JArr [JObj [(''eventID'', JStr ''test:event:id''),
              (''type'', JStr ''ObjectEvent''),
              (''action'', JStr ''OBSERVE''),
              (''epcList'', JArr [JStr ''urn:epc:id:sgtin:0614141.107346.2017'']),
              (''readPoint'', JObj [(''id'', JStr ''urn:epc:id:sgln:0614141.07346.1234''),
                                    (''example:extension'', JStr ''factoryId'')]),
              (''sensorElementList'', JArr [JObj [(''furtherEventData'', JArr [JObj [(''example:data1'', JStr ''123.5'')],
                                                 JObj [(''example:data2'', JStr ''0.987'')]]),
                 (''sensorMetadata'', JObj [(''time'', JStr ''2019-04-02T14:55:00.000+01:00'')]),
                 (''sensorReport'', JArr [JObj [(''type'', JStr ''gs1:MeasurementType-Temperature''),
                                                (''value'', JNum 26), (''uom'', JStr ''CEL'')]])]]),
              (''example:furtherEventData'', JArr [JObj [(''example:data1'', JStr ''123.5'')]])]])])])
     = Some ''EPCISDocument''
   \<and> field_sets test_catalog ''SensorElement'' = Some [''sensorMetadata'', ''sensorReport'']
   \<and> \<not> namespace_qualified ''furtherEventData''
   \<and> validateEpcisDocument test_catalog
     (JObj [(''@context'', JArr [JStr ''https://gs1.github.io/EPCIS/epcis-context.jsonld'',
                                    JObj [(''example'', JStr ''http://ns.example.com/epcis/'')]]),
           (''type'', JStr ''EPCISDocument''),
           (''schemaVersion'', JStr ''2.0''),
           (''creationDate'', JStr ''2005-07-11T11:30:47.0Z''),
           (''epcisBody'', JObj [(''eventList'', JArr [JObj [(''eventID'', JStr ''test:event:id''),
              (''type'', JStr ''ObjectEvent''),
              (''action'', JStr ''OBSERVE''),
              (''epcList'', JArr [JStr ''urn:epc:id:sgtin:0614141.107346.2017'']),
              (''readPoint'', JObj [(''id'', JStr ''urn:epc:id:sgln:0614141.07346.1234''),
                                    (''example:extension'', JStr ''factoryId'')]),
              (''sensorElementList'', JArr [JObj [(''furtherEventData'', JArr [JObj [(''example:data1'', JStr ''123.5'')],
                                                 JObj [(''example:data2'', JStr ''0.987'')]]),
                 (''sensorMetadata'', JObj [(''time'', JStr ''2019-04-02T14:55:00.000+01:00'')]),
                 (''sensorReport'', JArr [JObj [(''type'', JStr ''gs1:MeasurementType-Temperature''),
                                                (''value'', JNum 26), (''uom'', JStr ''CEL'')]])]]),
              (''example:furtherEventData'', JArr [JObj [(''example:data1'', JStr ''123.5'')]])]])])])
     = Inr \<lparr>success = False,
            errors = [ExtensionViolation
                        [Key ''epcisBody'', Key ''eventList'', Index 0,
                         Key ''sensorElementList'', Index 0, Key ''furtherEventData'']
                        ''extension key is not namespace-qualified'']\<rparr>"
proof -
  let ?entry = "[(''furtherEventData'', JArr [JObj [(''example:data1'', JStr ''123.5'')],
                                                 JObj [(''example:data2'', JStr ''0.987'')]]),
                 (''sensorMetadata'', JObj [(''time'', JStr ''2019-04-02T14:55:00.000+01:00'')]),
                 (''sensorReport'', JArr [JObj [(''type'', JStr ''gs1:MeasurementType-Temperature''),
                                                (''value'', JNum 26), (''uom'', JStr ''CEL'')]])]"
  let ?ev = "JObj [(''eventID'', JStr ''test:event:id''),
              (''type'', JStr ''ObjectEvent''),
              (''action'', JStr ''OBSERVE''),
              (''epcList'', JArr [JStr ''urn:epc:id:sgtin:0614141.107346.2017'']),
              (''readPoint'', JObj [(''id'', JStr ''urn:epc:id:sgln:0614141.07346.1234''),
                                    (''example:extension'', JStr ''factoryId'')]),
              (''sensorElementList'', JArr [JObj [(''furtherEventData'', JArr [JObj [(''example:data1'', JStr ''123.5'')],
                                                 JObj [(''example:data2'', JStr ''0.987'')]]),
                 (''sensorMetadata'', JObj [(''time'', JStr ''2019-04-02T14:55:00.000+01:00'')]),
                 (''sensorReport'', JArr [JObj [(''type'', JStr ''gs1:MeasurementType-Temperature''),
                                                (''value'', JNum 26), (''uom'', JStr ''CEL'')]])]]),
              (''example:furtherEventData'', JArr [JObj [(''example:data1'', JStr ''123.5'')]])]"
  let ?body = "JObj [(''eventList'', JArr [JObj [(''eventID'', JStr ''test:event:id''),
              (''type'', JStr ''ObjectEvent''),
              (''action'', JStr ''OBSERVE''),
              (''epcList'', JArr [JStr ''urn:epc:id:sgtin:0614141.107346.2017'']),
              (''readPoint'', JObj [(''id'', JStr ''urn:epc:id:sgln:0614141.07346.1234''),
                                    (''example:extension'', JStr ''factoryId'')]),
              (''sensorElementList'', JArr [JObj [(''furtherEventData'', JArr [JObj [(''example:data1'', JStr ''123.5'')],
                                                 JObj [(''example:data2'', JStr ''0.987'')]]),
                 (''sensorMetadata'', JObj [(''time'', JStr ''2019-04-02T14:55:00.000+01:00'')]),
                 (''sensorReport'', JArr [JObj [(''type'', JStr ''gs1:MeasurementType-Temperature''),
                                                (''value'', JNum 26), (''uom'', JStr ''CEL'')]])]]),
              (''example:furtherEventData'', JArr [JObj [(''example:data1'', JStr ''123.5'')]])]])]"
  let ?doc = "JObj [(''@context'', JArr [JStr ''https://gs1.github.io/EPCIS/epcis-context.jsonld'',
                                    JObj [(''example'', JStr ''http://ns.example.com/epcis/'')]]),
           (''type'', JStr ''EPCISDocument''),
           (''schemaVersion'', JStr ''2.0''),
           (''creationDate'', JStr ''2005-07-11T11:30:47.0Z''),
           (''epcisBody'', JObj [(''eventList'', JArr [JObj [(''eventID'', JStr ''test:event:id''),
              (''type'', JStr ''ObjectEvent''),
              (''action'', JStr ''OBSERVE''),
              (''epcList'', JArr [JStr ''urn:epc:id:sgtin:0614141.107346.2017'']),
              (''readPoint'', JObj [(''id'', JStr ''urn:epc:id:sgln:0614141.07346.1234''),
                                    (''example:extension'', JStr ''factoryId'')]),
              (''sensorElementList'', JArr [JObj [(''furtherEventData'', JArr [JObj [(''example:data1'', JStr ''123.5'')],
                                                 JObj [(''example:data2'', JStr ''0.987'')]]),
                 (''sensorMetadata'', JObj [(''time'', JStr ''2019-04-02T14:55:00.000+01:00'')]),
                 (''sensorReport'', JArr [JObj [(''type'', JStr ''gs1:MeasurementType-Temperature''),
                                                (''value'', JNum 26), (''uom'', JStr ''CEL'')]])]]),
              (''example:furtherEventData'', JArr [JObj [(''example:data1'', JStr ''123.5'')]])]])])]"
  have t: "document_type test_catalog ?doc = Some ''EPCISDocument''"
    by (simp add: document_type_def discriminator_def test_catalog_def)
  have fs: "field_sets test_catalog ''SensorElement'' = Some [''sensorMetadata'', ''sensorReport'']"
    by (simp add: test_catalog_def)
  have q: "\<not> namespace_qualified ''furtherEventData''"
    by (simp add: namespace_qualified_def key_prefix_def)
  have r3: "reaches test_catalog ''ObjectEvent'' ?ev ''SensorElement'' (JObj ?entry)"
    by (rule reaches.element [where k = "''sensorElementList''" and xs = "[JObj ?entry]"
          and x = "JObj ?entry" and M = "''SensorElement''"
          and fs = "[''eventID'', ''type'', ''action'', ''bizStep'', ''disposition'', ''epcList'',
              ''eventTime'', ''eventTimeZoneOffset'', ''readPoint'', ''bizLocation'',
              ''bizTransactionList'', ''sensorElementList'']", OF _ _ _ _ _ reaches.here])
      (simp_all add: test_catalog_def)
  have r2: "reaches test_catalog ''EPCISBody'' ?body ''SensorElement'' (JObj ?entry)"
    by (rule reaches.element [where k = "''eventList''" and xs = "[?ev]"
          and x = "?ev" and M = "''ObjectEvent''" and fs = "[''event'', ''eventList'']",
          OF _ _ _ _ _ r3])
      (simp_all add: test_catalog_def discriminator_def)
  have r1: "reaches test_catalog ''EPCISDocument'' ?doc ''SensorElement'' (JObj ?entry)"
    by (rule reaches.child [where k = "''epcisBody''" and v = "?body"
          and M = "''EPCISBody''"
          and fs = "[''@context'', ''type'', ''schemaVersion'', ''creationDate'', ''epcisBody'']",
          OF _ _ _ _ _ r2])
      (simp_all add: test_catalog_def)
  have k: "''furtherEventData'' \<in> set (map fst ?entry)"
    "''furtherEventData'' \<notin> set [''sensorMetadata'', ''sensorReport'']"
    by simp_all
  note nested_unqualified_extension_rejected [OF t r1 fs k q]
  then show ?thesis
    using t fs q
    by (simp add: validateEpcisDocument_def validateAgainstSchema_def body_events_def
        discriminator_def event_types_def test_catalog_def ensureFieldSet_def own_keys_def
        check_foreign_def namespace_qualified_def key_prefix_def context_prefixes_def
        document_context_def get_prop_def)
qed

text \<open>
  The same document with the key of the entry qualified, \<open>example:furtherEventData\<close>,
  is accepted: the rejection above is due to that key alone.
\<close>

lemma nested_extension_example_accepted:
  "validateEpcisDocument test_catalog
     (JObj [(''@context'', JArr [JStr ''https://gs1.github.io/EPCIS/epcis-context.jsonld'',
                                    JObj [(''example'', JStr ''http://ns.example.com/epcis/'')]]),
           (''type'', JStr ''EPCISDocument''),
           (''schemaVersion'', JStr ''2.0''),
           (''creationDate'', JStr ''2005-07-11T11:30:47.0Z''),
           (''epcisBody'', JObj [(''eventList'', JArr [JObj [(''eventID'', JStr ''test:event:id''),
              (''type'', JStr ''ObjectEvent''),
              (''action'', JStr ''OBSERVE''),
              (''epcList'', JArr [JStr ''urn:epc:id:sgtin:0614141.107346.2017'']),
              (''readPoint'', JObj [(''id'', JStr ''urn:epc:id:sgln:0614141.07346.1234''),
                                    (''example:extension'', JStr ''factoryId'')]),
              (''sensorElementList'', JArr [JObj [(''example:furtherEventData'', JArr [JObj [(''example:data1'', JStr ''123.5'')],
                                                 JObj [(''example:data2'', JStr ''0.987'')]]),
                 (''sensorMetadata'', JObj [(''time'', JStr ''2019-04-02T14:55:00.000+01:00'')]),
                 (''sensorReport'', JArr [JObj [(''type'', JStr ''gs1:MeasurementType-Temperature''),
                                                (''value'', JNum 26), (''uom'', JStr ''CEL'')]])]]),
              (''example:furtherEventData'', JArr [JObj [(''example:data1'', JStr ''123.5'')]])]])])])
     = Inr \<lparr>success = True, errors = []\<rparr>"
  by (simp add: validateEpcisDocument_def validateAgainstSchema_def body_events_def
      document_type_def discriminator_def event_types_def test_catalog_def ensureFieldSet_def
      own_keys_def check_foreign_def namespace_qualified_def key_prefix_def
      context_prefixes_def document_context_def get_prop_def)

end
